theory Spec2Isabelle
  imports Main
begin

section \<open>JavaScript strings and regular expressions\<close>

text \<open>
  A JavaScript string is a sequence of UTF-16 code units. The model uses \<^typ>\<open>string\<close>,
  a list of 8-bit characters, read as the code units \<open>0x00\<close> to \<open>0xFF\<close> (the Latin-1
  range): \<open>length\<close> is \<open>.length\<close>, \<open>take n\<close> is \<open>.slice(0, n)\<close>.
  Within that range the white space of \<open>trim\<close> and of the class \<open>\s\<close> is TAB, LF, VT,
  FF, CR, SP and NBSP, and the line terminators (which \<open>.\<close> excludes and at which
  \<open>^\<close> and \<open>$\<close> match under the \<open>m\<close> flag) are LF and CR.
\<close>

definition isLineTerminator :: "char \<Rightarrow> bool" where
  "isLineTerminator c = (c = CHR 0x0A \<or> c = CHR 0x0D)"

definition isSpace :: "char \<Rightarrow> bool" where
  "isSpace c = (c = CHR 0x09 \<or> c = CHR 0x0A \<or> c = CHR 0x0B \<or> c = CHR 0x0C \<or>
                c = CHR 0x0D \<or> c = CHR 0x20 \<or> c = CHR 0xA0)"

definition isDigit :: "char \<Rightarrow> bool" where
  "isDigit c = (c \<in> set ''0123456789'')"

text \<open>The regular-expression atom \<open>.\<close>: any character except a line terminator.\<close>

definition isDot :: "char \<Rightarrow> bool" where
  "isDot c = (\<not> isLineTerminator c)"

text \<open>The class \<open>[\s\S]\<close>: the union of \<open>\s\<close> and its complement.\<close>

definition isAny :: "char \<Rightarrow> bool" where
  "isAny c = (isSpace c \<or> \<not> isSpace c)"

text \<open>\<open>String.prototype.toLowerCase\<close> on the code units below \<open>0x100\<close>.\<close>

definition toLowerChar :: "char \<Rightarrow> char" where
  "toLowerChar c = (let n = (of_char c :: nat) in
     if (65 \<le> n \<and> n \<le> 90) \<or> (192 \<le> n \<and> n \<le> 222 \<and> n \<noteq> 215)
     then char_of (n + 32) else c)"

definition toLowerCase :: "string \<Rightarrow> string" where
  "toLowerCase s = map toLowerChar s"

text \<open>
  \<open>Canonicalize\<close> of the \<open>i\<close> flag (upper-casing one code unit). The two characters
  of the range whose upper case lies beyond it (\<open>0xB5\<close>, \<open>0xFF\<close>) and \<open>0xDF\<close>, whose
  upper case is two characters, stand for themselves; no other character of the range
  shares their canonical form.
\<close>

definition canonicalize :: "char \<Rightarrow> char" where
  "canonicalize c = (let n = (of_char c :: nat) in
     if (97 \<le> n \<and> n \<le> 122) \<or> (224 \<le> n \<and> n \<le> 254 \<and> n \<noteq> 247)
     then char_of (n - 32) else c)"

definition trimStart :: "string \<Rightarrow> string" where
  "trimStart s = dropWhile isSpace s"

definition trimEnd :: "string \<Rightarrow> string" where
  "trimEnd s = rev (dropWhile isSpace (rev s))"

definition trim :: "string \<Rightarrow> string" where
  "trim s = trimEnd (trimStart s)"

text \<open>\<open>Array.prototype.join\<close>.\<close>

fun join :: "string \<Rightarrow> string list \<Rightarrow> string" where
  "join sep [] = []"
| "join sep [x] = x"
| "join sep (x # y # ys) = x @ sep @ join sep (y # ys)"

subsection \<open>A backtracking matcher\<close>

text \<open>
  The patterns of the source are kept as syntax trees and run by one matcher, which
  follows the backtracking order of ECMAScript: for a pattern and a start state it
  returns every way the pattern can match there, the preferred one first. A state is
  the character before the current position (\<open>None\<close> at the start of the input),
  the rest of the input, and the text of capture group 1 (no pattern of the source has
  more than one group). A greedy star tries one more iteration before stopping, a lazy
  star stops before trying one more; an iteration that consumes nothing is rejected.
  Under the \<open>i\<close> flag a literal character is compared by canonical form; a class is
  tested as it stands (the one pattern of the source with that flag has no class).
\<close>

record flags =
  ignoreCase :: bool
  multiline :: bool

datatype regex =
    Eps
  | Chr char
  | Cls "char \<Rightarrow> bool"
  | Bol
  | Eol
  | Seq regex regex
  | Alt regex regex
  | Star regex
  | LazyStar regex
  | Group regex

type_synonym mstate = "char option \<times> string \<times> string option"

definition Plus :: "regex \<Rightarrow> regex" where
  "Plus r = Seq r (Star r)"

definition LazyPlus :: "regex \<Rightarrow> regex" where
  "LazyPlus r = Seq r (LazyStar r)"

fun Seqs :: "regex list \<Rightarrow> regex" where
  "Seqs [] = Eps"
| "Seqs (r # rs) = Seq r (Seqs rs)"

definition Lit :: "string \<Rightarrow> regex" where
  "Lit s = Seqs (map Chr s)"

definition chr_eq :: "flags \<Rightarrow> char \<Rightarrow> char \<Rightarrow> bool" where
  "chr_eq f c x = (if ignoreCase f then canonicalize c = canonicalize x else c = x)"

fun rmatch :: "flags \<Rightarrow> regex \<Rightarrow> mstate \<Rightarrow> mstate list" where
  "rmatch f Eps st = [st]"
| "rmatch f (Chr c) (p, s, g) =
     (case s of [] \<Rightarrow> [] | x # xs \<Rightarrow> if chr_eq f c x then [(Some x, xs, g)] else [])"
| "rmatch f (Cls P) (p, s, g) =
     (case s of [] \<Rightarrow> [] | x # xs \<Rightarrow> if P x then [(Some x, xs, g)] else [])"
| "rmatch f Bol (p, s, g) =
     (case p of None \<Rightarrow> [(p, s, g)]
      | Some c \<Rightarrow> if multiline f \<and> isLineTerminator c then [(p, s, g)] else [])"
| "rmatch f Eol (p, s, g) =
     (case s of [] \<Rightarrow> [(p, s, g)]
      | x # xs \<Rightarrow> if multiline f \<and> isLineTerminator x then [(p, s, g)] else [])"
| "rmatch f (Seq a b) st = concat (map (rmatch f b) (rmatch f a st))"
| "rmatch f (Alt a b) st = rmatch f a st @ rmatch f b st"
| "rmatch f (Star a) (p, s, g) =
     concat (map (rmatch f (Star a))
        (filter (\<lambda>(p', s', g'). length s' < length s) (rmatch f a (p, s, g)))) @ [(p, s, g)]"
| "rmatch f (LazyStar a) (p, s, g) =
     (p, s, g) # concat (map (rmatch f (LazyStar a))
        (filter (\<lambda>(p', s', g'). length s' < length s) (rmatch f a (p, s, g))))"
| "rmatch f (Group a) (p, s, g) =
     map (\<lambda>(p', s', g'). (p', s', Some (take (length s - length s') s))) (rmatch f a (p, s, g))"

text \<open>
  \<open>RegExp.prototype.exec\<close> without the \<open>g\<close> flag: the first position, from the left,
  at which the pattern matches, with the preferred match there. The result is the text
  before the match and the state after it.
\<close>

fun re_search :: "flags \<Rightarrow> regex \<Rightarrow> char option \<Rightarrow> string \<Rightarrow> (string \<times> mstate) option" where
  "re_search f r p [] =
     (case rmatch f r (p, [], None) of [] \<Rightarrow> None | st # _ \<Rightarrow> Some ([], st))"
| "re_search f r p (c # cs) =
     (case rmatch f r (p, c # cs, None) of
        st # _ \<Rightarrow> Some ([], st)
      | [] \<Rightarrow> (case re_search f r (Some c) cs of
                 None \<Rightarrow> None
               | Some (pre, st) \<Rightarrow> Some (c # pre, st)))"

text \<open>\<open>RegExp.prototype.test\<close>.\<close>

definition re_test :: "flags \<Rightarrow> regex \<Rightarrow> string \<Rightarrow> bool" where
  "re_test f r s = (re_search f r None s \<noteq> None)"

text \<open>\<open>String.prototype.replace\<close> with a pattern without the \<open>g\<close> flag: the first match only.\<close>

definition re_replace :: "flags \<Rightarrow> regex \<Rightarrow> string \<Rightarrow> string \<Rightarrow> string" where
  "re_replace f r rep s =
     (case re_search f r None s of
        None \<Rightarrow> s
      | Some (pre, (p', rest, g)) \<Rightarrow> pre @ rep @ rest)"

text \<open>
  \<open>String.prototype.replace\<close> with the \<open>g\<close> flag: every match from the left, the
  search resuming where the last match ended, one character further after an empty match.
\<close>

fun re_replace_from :: "flags \<Rightarrow> regex \<Rightarrow> string \<Rightarrow> char option \<Rightarrow> string \<Rightarrow> string" where
  "re_replace_from f r rep p s =
     (case rmatch f r (p, s, None) of
        (p', s', g) # _ \<Rightarrow>
          if length s' < length s then rep @ re_replace_from f r rep p' s'
          else rep @ (case s of [] \<Rightarrow> [] | c # cs \<Rightarrow> c # re_replace_from f r rep (Some c) cs)
      | [] \<Rightarrow> (case s of [] \<Rightarrow> [] | c # cs \<Rightarrow> c # re_replace_from f r rep (Some c) cs))"

definition re_replace_all :: "flags \<Rightarrow> regex \<Rightarrow> string \<Rightarrow> string \<Rightarrow> string" where
  "re_replace_all f r rep s = re_replace_from f r rep None s"

text \<open>
  \<open>String.prototype.split\<close> with a pattern and no limit. \<open>acc\<close> is the piece being
  collected; a match that is empty and starts the piece does not split.
\<close>

fun re_split_from :: "flags \<Rightarrow> regex \<Rightarrow> string \<Rightarrow> char option \<Rightarrow> string \<Rightarrow> string list" where
  "re_split_from f r acc p [] = [acc]"
| "re_split_from f r acc p (c # cs) =
     (case rmatch f r (p, c # cs, None) of
        [] \<Rightarrow> re_split_from f r (acc @ [c]) (Some c) cs
      | (p', s', g) # _ \<Rightarrow>
          if length s' < length (c # cs) then acc # re_split_from f r [] p' s'
          else if acc = [] then re_split_from f r (acc @ [c]) (Some c) cs
          else acc # re_split_from f r [] p (c # cs))"

definition re_split :: "flags \<Rightarrow> regex \<Rightarrow> string \<Rightarrow> string list" where
  "re_split f r s =
     (if s = [] then (if rmatch f r (None, [], None) = [] then [[]] else [])
      else re_split_from f r [] None s)"

section \<open>The Antigravity workflow format\<close>

text \<open>The flag sets of the source's patterns (\<open>g\<close> selects the replace function, not the matcher).\<close>

definition no_flags :: flags where
  "no_flags = \<lparr>ignoreCase = False, multiline = False\<rparr>"

definition flag_i :: flags where
  "flag_i = \<lparr>ignoreCase = True, multiline = False\<rparr>"

definition flag_m :: flags where
  "flag_m = \<lparr>ignoreCase = False, multiline = True\<rparr>"

definition DESCRIPTION_MAX_LENGTH :: nat where
  "DESCRIPTION_MAX_LENGTH = 250"

text \<open>The pattern \<^verbatim>\<open>/\.md$/i\<close>.\<close>

definition re_md_ext :: regex where
  "re_md_ext = Seqs [Chr CHR ''.'', Chr CHR ''m'', Chr CHR ''d'', Eol]"

text \<open>The pattern \<^verbatim>\<open>/-/g\<close>.\<close>

definition re_dash :: regex where
  "re_dash = Chr CHR ''-''"

definition toAntigravityFilename :: "string \<Rightarrow> string" where
  "toAntigravityFilename filename =
     (let base = re_replace flag_i re_md_ext [] filename;
          withUnderscores = toLowerCase (re_replace_all no_flags re_dash ''_'' base)
      in withUnderscores @ ''.md'')"

text \<open>The pattern \<^verbatim>\<open>/^#\s+(.+?)(?:\n|$)/m\<close>.\<close>

definition re_heading :: regex where
  "re_heading = Seqs [Bol, Chr CHR ''#'', Plus (Cls isSpace), Group (LazyPlus (Cls isDot)),
                      Alt (Chr CHR ''\<newline>'') Eol]"

text \<open>The pattern \<^verbatim>\<open>/\n/\<close>.\<close>

definition re_newline :: regex where
  "re_newline = Chr CHR ''\<newline>''"

text \<open>The pattern \<^verbatim>\<open>/\s+/g\<close>.\<close>

definition re_spaces :: regex where
  "re_spaces = Plus (Cls isSpace)"

text \<open>
  \<open>headingMatch[1]\<close>: the text of group 1. The group is not optional in the pattern,
  so every match sets it (lemma \<open>heading_group_set\<close> below), and the value for an unset
  group is never used.
\<close>

definition group1 :: "mstate \<Rightarrow> string" where
  "group1 st = (case st of (p, rest, g) \<Rightarrow> (case g of None \<Rightarrow> [] | Some t \<Rightarrow> t))"

definition deriveDescription :: "string \<Rightarrow> string" where
  "deriveDescription content =
     (let trimmed = trim content;
          headingMatch = re_search flag_m re_heading None trimmed;
          firstLine =
            (case headingMatch of
               Some (pre, st) \<Rightarrow> trim (group1 st)
             | None \<Rightarrow>
                 (case re_split no_flags re_newline trimmed of
                    [] \<Rightarrow> ''Workflow''
                  | l # ls \<Rightarrow> if trim l = [] then ''Workflow'' else trim l));
          cleaned = trim (re_replace_all no_flags re_spaces '' '' firstLine)
      in if length cleaned \<le> DESCRIPTION_MAX_LENGTH then cleaned
         else take (DESCRIPTION_MAX_LENGTH - 3) cleaned @ ''...'')"

text \<open>The pattern \<^verbatim>\<open>/^\d+\.\s+/m\<close>.\<close>

definition re_numbered :: regex where
  "re_numbered = Seqs [Bol, Plus (Cls isDigit), Chr CHR ''.'', Plus (Cls isSpace)]"

definition ensureSteps :: "string \<Rightarrow> string" where
  "ensureSteps body =
     (let trimmed = trim body
      in if re_test flag_m re_numbered trimmed then trimmed
         else ''1. '' @ join ''\<newline>   '' (re_split no_flags re_newline trimmed))"

text \<open>The pattern \<^verbatim>\<open>/^---[\s\S]*?---\s*/m\<close>.\<close>

definition re_frontmatter :: regex where
  "re_frontmatter = Seqs [Bol, Lit ''---'', LazyStar (Cls isAny), Lit ''---'', Star (Cls isSpace)]"

text \<open>The optional second argument \<open>{ description?: string; ensureSteps?: boolean }\<close>.\<close>

record workflow_options =
  opt_description :: "string option"
  opt_ensureSteps :: "bool option"

definition toAntigravityWorkflowContent :: "string \<Rightarrow> workflow_options option \<Rightarrow> string" where
  "toAntigravityWorkflowContent content options =
     (let given =
            (case options of
               None \<Rightarrow> None
             | Some opts \<Rightarrow>
                 (case opt_description opts of
                    None \<Rightarrow> None
                  | Some d \<Rightarrow> if d \<noteq> [] \<and> length d \<le> DESCRIPTION_MAX_LENGTH then Some d else None));
          description = (case given of Some d \<Rightarrow> d | None \<Rightarrow> deriveDescription content);
          finalDescription =
            (if length description > DESCRIPTION_MAX_LENGTH
             then take (DESCRIPTION_MAX_LENGTH - 3) description @ ''...''
             else description);
          frontmatter = ''---\<newline>description: ''
             @ re_replace_all no_flags re_newline '' '' finalDescription @ ''\<newline>---\<newline>'';
          body = trim (re_replace flag_m re_frontmatter [] content);
          wantSteps = (case options of None \<Rightarrow> True
                       | Some opts \<Rightarrow> opt_ensureSteps opts \<noteq> Some False);
          bodyWithSteps = (if wantSteps then ensureSteps body else body)
      in frontmatter @ ''\<newline>'' @ bodyWithSteps @ ''\<newline>'')"

subsection \<open>Filenames in kebab case\<close>

text \<open>
  The vocabulary of the filename claim: a kebab-case name is a list of words joined by
  \<open>-\<close>; a word is made of letters and digits, in lower case when the name is valid.
\<close>

definition kebab_char :: "char \<Rightarrow> bool" where
  "kebab_char c = (c \<in> set ''abcdefghijklmnopqrstuvwxyz0123456789'')"

definition alnum_char :: "char \<Rightarrow> bool" where
  "alnum_char c = (kebab_char c \<or> c \<in> set ''ABCDEFGHIJKLMNOPQRSTUVWXYZ'')"

definition underscore_lower :: "char \<Rightarrow> char" where
  "underscore_lower c = toLowerChar (if c = CHR ''-'' then CHR ''_'' else c)"

section \<open>The file system\<close>

text \<open>
  The calls to \<open>fs-extra\<close> act on a file system: the regular files with their
  contents and the set of directories, both keyed by path. The record is extensible, so
  whatever else the environment holds (timestamps, the state of the external
  services) travels in its extension \<open>'w\<close>. A thrown value is modelled by its message,
  the string that \<open>error instanceof Error ? error.message : String(error)\<close> gives; an
  operation returns its outcome (\<open>Inl\<close> the thrown message) together with the file
  system it leaves behind. Paths are joined with \<open>/\<close> and not normalised further.
  The failures modelled are those of a path of the wrong kind: a file where a directory
  is to be made, a directory where a file is to be read or written, a file that is
  missing. Permissions and device errors are not modelled.
\<close>

record fs =
  files :: "string \<rightharpoonup> string"
  dirs :: "string set"

type_synonym 'a outcome = "string + 'a"

definition path_join :: "string \<Rightarrow> string \<Rightarrow> string" where
  "path_join a b = a @ ''/'' @ b"

definition pathExists :: "string \<Rightarrow> 'w fs_scheme \<Rightarrow> bool" where
  "pathExists p st = (p \<in> dom (files st) \<or> p \<in> dirs st)"

definition ensureDir :: "string \<Rightarrow> 'w fs_scheme \<Rightarrow> unit outcome \<times> 'w fs_scheme" where
  "ensureDir p st =
     (if p \<in> dom (files st) then (Inl (''EEXIST: file already exists, mkdir '' @ p), st)
      else (Inr (), st\<lparr>dirs := insert p (dirs st)\<rparr>))"

definition readFile :: "string \<Rightarrow> 'w fs_scheme \<Rightarrow> string outcome" where
  "readFile p st =
     (case files st p of
        Some c \<Rightarrow> Inr c
      | None \<Rightarrow>
          if p \<in> dirs st then Inl (''EISDIR: illegal operation on a directory, read '' @ p)
          else Inl (''ENOENT: no such file or directory, open '' @ p))"

definition writeFile :: "string \<Rightarrow> string \<Rightarrow> 'w fs_scheme \<Rightarrow> unit outcome \<times> 'w fs_scheme" where
  "writeFile p c st =
     (if p \<in> dirs st then (Inl (''EISDIR: illegal operation on a directory, open '' @ p), st)
      else (Inr (), st\<lparr>files := (files st)(p \<mapsto> c)\<rparr>))"

section \<open>Generating the predefined commands\<close>

record CommandTemplate =
  filename :: string
  content :: string

text \<open>
  \<open>PREDEFINED_COMMANDS\<close> has one template, \<open>init-mcp-only.md\<close>. Its markdown body
  holds a character beyond the 8-bit range (U+2014), so the body is a parameter here, and
  \<open>generateCommands\<close> takes the list of templates it iterates over as an argument.
\<close>

definition PREDEFINED_COMMANDS :: "string \<Rightarrow> CommandTemplate list" where
  "PREDEFINED_COMMANDS body = [\<lparr>filename = ''init-mcp-only.md'', content = body\<rparr>]"

record GenerateCommandsResult =
  commandsDir :: string
  generated :: "string list"
  skipped :: "string list"

text \<open>The \<open>for\<close> loop of \<open>generateCommands\<close>, with the two result lists and the file system.\<close>

fun generateCommands_loop ::
  "bool \<Rightarrow> string \<Rightarrow> CommandTemplate list \<Rightarrow> string list \<Rightarrow> string list \<Rightarrow> 'w fs_scheme
     \<Rightarrow> (string list \<times> string list) outcome \<times> 'w fs_scheme" where
  "generateCommands_loop frc dir [] gen skp st = (Inr (gen, skp), st)"
| "generateCommands_loop frc dir (cmd # cmds) gen skp st =
     (let filePath = path_join dir (filename cmd);
          exists = pathExists filePath st
      in if exists \<and> \<not> frc then generateCommands_loop frc dir cmds gen (skp @ [filename cmd]) st
         else (case writeFile filePath (trimEnd (content cmd) @ ''\<newline>'') st of
                 (Inl e, st') \<Rightarrow> (Inl e, st')
               | (Inr u, st') \<Rightarrow> generateCommands_loop frc dir cmds (gen @ [filename cmd]) skp st'))"

text \<open>\<open>options.force\<close> is optional: \<open>None\<close> is an absent field, and \<open>force ?? false\<close>.\<close>

definition generateCommands ::
  "CommandTemplate list \<Rightarrow> string \<Rightarrow> bool option \<Rightarrow> 'w fs_scheme
     \<Rightarrow> GenerateCommandsResult outcome \<times> 'w fs_scheme" where
  "generateCommands templates outputDir force_opt st =
     (let cdir = path_join outputDir ''commands''
      in case ensureDir cdir st of
           (Inl e, st1) \<Rightarrow> (Inl e, st1)
         | (Inr u, st1) \<Rightarrow>
             (let frc = (case force_opt of None \<Rightarrow> False | Some b \<Rightarrow> b)
              in case generateCommands_loop frc cdir templates [] [] st1 of
                   (Inl e, st2) \<Rightarrow> (Inl e, st2)
                 | (Inr (gen, skp), st2) \<Rightarrow>
                     (Inr \<lparr>commandsDir = cdir, generated = gen, skipped = skp\<rparr>, st2)))"

section \<open>Exporting the commands as workflows\<close>

text \<open>The \<open>for\<close> loop of \<open>exportCommandsToAntigravity\<close>.\<close>

fun exportCommands_loop ::
  "string \<Rightarrow> string \<Rightarrow> string list \<Rightarrow> nat \<Rightarrow> 'w fs_scheme \<Rightarrow> nat outcome \<times> 'w fs_scheme" where
  "exportCommands_loop sourceDir targetDir [] written st = (Inr written, st)"
| "exportCommands_loop sourceDir targetDir (name # names) written st =
     (let srcPath = path_join sourceDir name
      in case readFile srcPath st of
           Inl e \<Rightarrow> (Inl e, st)
         | Inr text \<Rightarrow>
             (let workflowContent = toAntigravityWorkflowContent text None;
                  outFilename = toAntigravityFilename name;
                  outPath = path_join targetDir outFilename
              in case writeFile outPath workflowContent st of
                   (Inl e, st') \<Rightarrow> (Inl e, st')
                 | (Inr u, st') \<Rightarrow> exportCommands_loop sourceDir targetDir names (written + 1) st'))"

definition exportCommandsToAntigravity ::
  "string \<Rightarrow> string \<Rightarrow> string list \<Rightarrow> bool \<Rightarrow> bool \<Rightarrow> 'w fs_scheme \<Rightarrow> nat outcome \<times> 'w fs_scheme" where
  "exportCommandsToAntigravity sourceDir targetDir filenames frc dry st =
     (if dry then (Inr (length filenames), st)
      else (case ensureDir targetDir st of
              (Inl e, st1) \<Rightarrow> (Inl e, st1)
            | (Inr u, st1) \<Rightarrow> exportCommands_loop sourceDir targetDir filenames 0 st1))"

section \<open>The quick-sync service\<close>

text \<open>
  The options of \<open>QuickSyncService.run\<close>. Every field is optional in the source:
  \<open>None\<close> is an absent (undefined) field. \<open>llmConfig\<close> is not read by \<open>run\<close> and is
  left out.
\<close>

record QuickSyncOptions =
  skipAgents :: "bool option"
  skipSkills :: "bool option"
  skipDocs :: "bool option"
  force :: "bool option"
  dryRun :: "bool option"
  verbose :: "bool option"
  agentTargets :: "string list option"
  skillTargets :: "string list option"
  docTargets :: "string list option"
  skipCommands :: "bool option"
  commandTargets :: "string list option"

record QuickSyncResult =
  agentsSynced :: nat
  skillsExported :: nat
  commandsSynced :: nat
  docsUpdated :: bool
  errors :: "string list"

text \<open>The argument objects passed to the three external services, field by field.\<close>

record SyncRunOptions =
  sync_source :: string
  sync_preset :: "string option"
  sync_target :: "string list option"
  sync_force :: "bool option"
  sync_dryRun :: "bool option"
  sync_verbose :: bool

record SkillExportOptions =
  skill_preset :: "string option"
  skill_targets :: "string list option"
  skill_force :: "bool option"
  skill_dryRun :: "bool option"
  skill_verbose :: bool
  skill_includeBuiltIn :: bool

record ExportRulesOptions =
  rules_source :: string
  rules_preset :: "string option"
  rules_targets :: "string list option"
  rules_force :: "bool option"
  rules_dryRun :: "bool option"

record DetectResult =
  det_state :: string
  det_daysBehind :: "nat option"

text \<open>
  What \<open>run\<close> does to its collaborators is recorded as a trace: the calls to the
  spinner of the user interface and the calls to the external services with their
  arguments.
\<close>

datatype event =
    StartSpinner string
  | UpdateSpinner string string
  | StopSpinner
  | SyncServiceRun SyncRunOptions
  | SkillExportRun string SkillExportOptions
  | ExportRulesRun string ExportRulesOptions
  | DetectorDetect string

text \<open>
  The collaborators of \<open>run\<close> that are not part of the source under study are
  parameters: \<open>SyncService.run\<close>, \<open>SkillExportService.run\<close> (its result is the list
  \<open>skillsExported\<close>), \<open>ExportRulesService.run\<close>, \<open>StateDetector.detect\<close>,
  \<open>fs.readdir\<close>, \<open>getCommandsSyncPresets\<close> (the preset keys in the order of
  \<open>Object.keys\<close>, each with its \<open>path\<close>), \<open>path.resolve\<close> and the translation function
  \<open>t\<close> (a key and the optional \<open>days\<close> parameter). A service may throw, and may change
  the file system and the rest of the environment. The functions of the user interface
  are taken not to throw.
\<close>

record 'w services =
  syncService_run :: "SyncRunOptions \<Rightarrow> 'w fs_scheme \<Rightarrow> unit outcome \<times> 'w fs_scheme"
  skillExport_run :: "string \<Rightarrow> SkillExportOptions \<Rightarrow> 'w fs_scheme \<Rightarrow> string list outcome \<times> 'w fs_scheme"
  exportRules_run :: "string \<Rightarrow> ExportRulesOptions \<Rightarrow> 'w fs_scheme \<Rightarrow> unit outcome \<times> 'w fs_scheme"
  detector_detect :: "string \<Rightarrow> 'w fs_scheme \<Rightarrow> DetectResult outcome \<times> 'w fs_scheme"
  fs_readdir :: "string \<Rightarrow> 'w fs_scheme \<Rightarrow> string list outcome"
  commandsSyncPresets :: "(string \<times> string) list"
  path_resolve :: "string list \<Rightarrow> string"
  translate :: "string \<Rightarrow> nat option \<Rightarrow> string"

record 'w run_state =
  result :: QuickSyncResult
  trace :: "event list"
  world :: "'w fs_scheme"

definition emit :: "event \<Rightarrow> 'w run_state \<Rightarrow> 'w run_state" where
  "emit e s = s\<lparr>trace := trace s @ [e]\<rparr>"

definition push_error :: "string \<Rightarrow> 'w run_state \<Rightarrow> 'w run_state" where
  "push_error msg s = s\<lparr>result := (result s)\<lparr>errors := errors (result s) @ [msg]\<rparr>\<rparr>"

text \<open>The truth value of an optional boolean.\<close>

definition truthy :: "bool option \<Rightarrow> bool" where
  "truthy b = (b = Some True)"

text \<open>\<open>Array.isArray(targets) && targets.length === 0\<close>.\<close>

definition isEmptyArray :: "string list option \<Rightarrow> bool" where
  "isEmptyArray targets = (targets = Some [])"

text \<open>\<open>targets && targets.length > 0\<close>.\<close>

definition hasCustom :: "string list option \<Rightarrow> bool" where
  "hasCustom targets = (case targets of None \<Rightarrow> False | Some ids \<Rightarrow> ids \<noteq> [])"

definition endsWith :: "string \<Rightarrow> string \<Rightarrow> bool" where
  "endsWith s suf = (length suf \<le> length s \<and> drop (length s - length suf) s = suf)"

text \<open>A number in a template literal: its decimal digits.\<close>

fun showNat :: "nat \<Rightarrow> string" where
  "showNat n = (if n < 10 then [''0123456789'' ! n]
                else showNat (n div 10) @ [''0123456789'' ! (n mod 10)])"

definition targetInfo :: "string list option \<Rightarrow> string" where
  "targetInfo targets =
     (case targets of
        None \<Rightarrow> ''to all targets''
      | Some ids \<Rightarrow> if ids \<noteq> [] then ''to '' @ join '', '' ids else ''to all targets'')"

text \<open>
  Each step of \<open>run\<close> is a \<open>try\<close> block with the same \<open>catch\<close> and \<open>finally\<close>: the
  block either completes or throws; a thrown value is reported on the spinner and its
  message appended to \<open>result.errors\<close>; the spinner is stopped in both cases.
\<close>

definition guarded ::
  "string \<Rightarrow> ('w run_state \<Rightarrow> unit outcome \<times> 'w run_state) \<Rightarrow> 'w run_state \<Rightarrow> 'w run_state" where
  "guarded failMessage body s =
     (case body s of
        (Inr u, s') \<Rightarrow> emit StopSpinner s'
      | (Inl e, s') \<Rightarrow> emit StopSpinner (push_error e (emit (UpdateSpinner failMessage ''fail'') s')))"

text \<open>Step 1, the \<open>try\<close> block: sync agents.\<close>

definition syncAgents ::
  "'w services \<Rightarrow> string \<Rightarrow> QuickSyncOptions \<Rightarrow> 'w run_state \<Rightarrow> unit outcome \<times> 'w run_state" where
  "syncAgents sv absolutePath options s =
     (let s1 = emit (StartSpinner (translate sv ''prompts.quickSync.syncing.agents'' None)) s;
          agentsPath = path_join (path_join absolutePath ''.context'') ''agents''
      in if pathExists agentsPath (world s1) then
           (let hasCustomTargets = hasCustom (agentTargets options);
                args = \<lparr>sync_source = agentsPath,
                        sync_preset = (if hasCustomTargets then None else Some ''all''),
                        sync_target = (if hasCustomTargets then agentTargets options else None),
                        sync_force = force options, sync_dryRun = dryRun options,
                        sync_verbose = False\<rparr>;
                s2 = emit (SyncServiceRun args) s1
            in case syncService_run sv args (world s2) of
                 (Inl e, w) \<Rightarrow> (Inl e, s2\<lparr>world := w\<rparr>)
               | (Inr u, w) \<Rightarrow>
                   (case fs_readdir sv agentsPath w of
                      Inl e \<Rightarrow> (Inl e, s2\<lparr>world := w\<rparr>)
                    | Inr names \<Rightarrow>
                        (let n = length (filter (\<lambda>f. endsWith f ''.md'') names);
                             s3 = s2\<lparr>world := w, result := (result s2)\<lparr>agentsSynced := n\<rparr>\<rparr>
                         in (Inr (), emit (UpdateSpinner
                               (showNat n @ '' agents synced '' @ targetInfo (agentTargets options))
                               ''success'') s3))))
         else (Inr (), emit (UpdateSpinner ''No agents to sync'' ''info'') s1))"

definition stepAgents ::
  "'w services \<Rightarrow> string \<Rightarrow> QuickSyncOptions \<Rightarrow> 'w run_state \<Rightarrow> 'w run_state" where
  "stepAgents sv absolutePath options s =
     (if truthy (skipAgents options) then s
      else if isEmptyArray (agentTargets options) then s
      else guarded ''Failed to sync agents'' (syncAgents sv absolutePath options) s)"

text \<open>Step 2, the \<open>try\<close> block: export skills.\<close>

definition exportSkills ::
  "'w services \<Rightarrow> string \<Rightarrow> QuickSyncOptions \<Rightarrow> 'w run_state \<Rightarrow> unit outcome \<times> 'w run_state" where
  "exportSkills sv absolutePath options s =
     (let s1 = emit (StartSpinner (translate sv ''prompts.quickSync.syncing.skills'' None)) s;
          skillsPath = path_join (path_join absolutePath ''.context'') ''skills''
      in if pathExists skillsPath (world s1) then
           (let hasCustomTargets = hasCustom (skillTargets options);
                args = \<lparr>skill_preset = (if hasCustomTargets then None else Some ''all''),
                        skill_targets = (if hasCustomTargets then skillTargets options else None),
                        skill_force = force options, skill_dryRun = dryRun options,
                        skill_verbose = False, skill_includeBuiltIn = True\<rparr>;
                s2 = emit (SkillExportRun absolutePath args) s1
            in case skillExport_run sv absolutePath args (world s2) of
                 (Inl e, w) \<Rightarrow> (Inl e, s2\<lparr>world := w\<rparr>)
               | (Inr exported, w) \<Rightarrow>
                   (let n = length exported;
                        s3 = s2\<lparr>world := w, result := (result s2)\<lparr>skillsExported := n\<rparr>\<rparr>
                    in (Inr (), emit (UpdateSpinner
                          (showNat n @ '' skills exported '' @ targetInfo (skillTargets options))
                          ''success'') s3)))
         else (Inr (), emit (UpdateSpinner ''No skills to export'' ''info'') s1))"

definition stepSkills ::
  "'w services \<Rightarrow> string \<Rightarrow> QuickSyncOptions \<Rightarrow> 'w run_state \<Rightarrow> 'w run_state" where
  "stepSkills sv absolutePath options s =
     (if truthy (skipSkills options) then s
      else if isEmptyArray (skillTargets options) then s
      else guarded ''Failed to export skills'' (exportSkills sv absolutePath options) s)"

text \<open>
  Step 3, the \<open>try\<close> block: sync commands. The targets other than \<open>antigravity\<close> go
  to the sync service in one call; \<open>antigravity\<close> goes through
  \<open>exportCommandsToAntigravity\<close>. A path is truthy when it is not the empty string.
\<close>

definition syncCommands ::
  "'w services \<Rightarrow> string \<Rightarrow> QuickSyncOptions \<Rightarrow> 'w run_state \<Rightarrow> unit outcome \<times> 'w run_state" where
  "syncCommands sv absolutePath options s =
     (let s1 = emit (StartSpinner (translate sv ''prompts.quickSync.syncing.commands'' None)) s;
          commandsPath = path_join (path_join absolutePath ''.context'') ''commands''
      in if pathExists commandsPath (world s1) then
           (let commandsPresets = commandsSyncPresets sv;
                hasCustomTargets = hasCustom (commandTargets options);
                targetIds = (case commandTargets options of
                               None \<Rightarrow> map fst commandsPresets
                             | Some ids \<Rightarrow> if hasCustomTargets then ids
                                          else map fst commandsPresets);
                antigravityPath =
                  (case map_of commandsPresets ''antigravity'' of
                     None \<Rightarrow> None
                   | Some p \<Rightarrow> if ''antigravity'' \<in> set targetIds
                               then Some (path_resolve sv [absolutePath, p]) else None);
                otherTargetIds = filter (\<lambda>id. id \<noteq> ''antigravity'') targetIds;
                otherTargetPaths = map (\<lambda>p. path_resolve sv [absolutePath, p])
                                     (List.map_filter (map_of commandsPresets) otherTargetIds)
            in case fs_readdir sv commandsPath (world s1) of
                 Inl e \<Rightarrow> (Inl e, s1)
               | Inr names \<Rightarrow>
                   (let commandFiles = filter (\<lambda>f. endsWith f ''.md'') names;
                        synced =
                          (if otherTargetPaths \<noteq> [] then
                             (let args = \<lparr>sync_source = commandsPath, sync_preset = None,
                                          sync_target = Some otherTargetPaths,
                                          sync_force = force options, sync_dryRun = dryRun options,
                                          sync_verbose = False\<rparr>;
                                  s2 = emit (SyncServiceRun args) s1
                              in case syncService_run sv args (world s2) of
                                   (r, w) \<Rightarrow> (r, s2\<lparr>world := w\<rparr>))
                           else (Inr (), s1))
                    in case synced of
                         (Inl e, s3) \<Rightarrow> (Inl e, s3)
                       | (Inr u, s3) \<Rightarrow>
                           (let exported =
                                  (case antigravityPath of
                                     None \<Rightarrow> (Inr 0, world s3)
                                   | Some ap \<Rightarrow>
                                       if ap \<noteq> [] \<and> commandFiles \<noteq> [] then
                                         exportCommandsToAntigravity commandsPath ap commandFiles
                                           (case force options of None \<Rightarrow> False | Some b \<Rightarrow> b)
                                           (case dryRun options of None \<Rightarrow> False | Some b \<Rightarrow> b)
                                           (world s3)
                                       else (Inr 0, world s3))
                            in case exported of
                                 (Inl e, w) \<Rightarrow> (Inl e, s3\<lparr>world := w\<rparr>)
                               | (Inr k, w) \<Rightarrow>
                                   (let n = length commandFiles;
                                        s4 = s3\<lparr>world := w,
                                               result := (result s3)\<lparr>commandsSynced := n\<rparr>\<rparr>
                                    in (Inr (), emit (UpdateSpinner
                                          (showNat n @ '' commands synced ''
                                             @ targetInfo (commandTargets options))
                                          ''success'') s4)))))
         else (Inr (), emit (UpdateSpinner ''No commands to sync'' ''info'') s1))"

definition stepCommands ::
  "'w services \<Rightarrow> string \<Rightarrow> QuickSyncOptions \<Rightarrow> 'w run_state \<Rightarrow> 'w run_state" where
  "stepCommands sv absolutePath options s =
     (if truthy (skipCommands options) then s
      else if isEmptyArray (commandTargets options) then s
      else guarded ''Failed to sync commands'' (syncCommands sv absolutePath options) s)"

text \<open>Step 4, the \<open>try\<close> block: export docs as rules.\<close>

definition exportRules ::
  "'w services \<Rightarrow> string \<Rightarrow> QuickSyncOptions \<Rightarrow> 'w run_state \<Rightarrow> unit outcome \<times> 'w run_state" where
  "exportRules sv absolutePath options s =
     (let s1 = emit (StartSpinner (translate sv ''prompts.quickSync.syncing.rules'' None)) s;
          docsPath = path_join (path_join absolutePath ''.context'') ''docs''
      in if pathExists docsPath (world s1) then
           (let hasCustomTargets = hasCustom (docTargets options);
                args = \<lparr>rules_source = docsPath,
                        rules_preset = (if hasCustomTargets then None else Some ''all''),
                        rules_targets = (if hasCustomTargets then docTargets options else None),
                        rules_force = force options, rules_dryRun = dryRun options\<rparr>;
                s2 = emit (ExportRulesRun absolutePath args) s1
            in case exportRules_run sv absolutePath args (world s2) of
                 (Inl e, w) \<Rightarrow> (Inl e, s2\<lparr>world := w\<rparr>)
               | (Inr u, w) \<Rightarrow>
                   (Inr (), emit (UpdateSpinner (''Rules exported '' @ targetInfo (docTargets options))
                                   ''success'') (s2\<lparr>world := w\<rparr>)))
         else (Inr (), emit (UpdateSpinner ''No docs to export'' ''info'') s1))"

definition stepRules ::
  "'w services \<Rightarrow> string \<Rightarrow> QuickSyncOptions \<Rightarrow> 'w run_state \<Rightarrow> 'w run_state" where
  "stepRules sv absolutePath options s =
     (if truthy (skipDocs options) then s
      else if isEmptyArray (docTargets options) then s
      else guarded ''Failed to export rules'' (exportRules sv absolutePath options) s)"

text \<open>
  Step 5, the \<open>try\<close> block: check the docs status. \<open>daysBehind\<close> is truthy when it is
  present and not zero.
\<close>

definition checkDocs ::
  "'w services \<Rightarrow> string \<Rightarrow> QuickSyncOptions \<Rightarrow> 'w run_state \<Rightarrow> unit outcome \<times> 'w run_state" where
  "checkDocs sv absolutePath options s =
     (let s1 = emit (StartSpinner (translate sv ''prompts.quickSync.syncing.docs'' None)) s;
          s2 = emit (DetectorDetect absolutePath) s1
      in case detector_detect sv absolutePath (world s2) of
           (Inl e, w) \<Rightarrow> (Inl e, s2\<lparr>world := w\<rparr>)
         | (Inr state, w) \<Rightarrow>
             (let s3 = s2\<lparr>world := w\<rparr>
              in if det_state state = ''outdated''
                    \<and> (case det_daysBehind state of None \<Rightarrow> False | Some d \<Rightarrow> d \<noteq> 0)
                 then
                   (let s4 = emit StopSpinner (emit (UpdateSpinner
                               (translate sv ''prompts.quickSync.docsOutdated'' (det_daysBehind state))
                               ''warn'') s3)
                    in (Inr (), s4\<lparr>result := (result s4)\<lparr>docsUpdated := False\<rparr>\<rparr>))
                 else
                   (let s4 = emit (UpdateSpinner ''Docs up to date'' ''success'') s3
                    in (Inr (), s4\<lparr>result := (result s4)\<lparr>docsUpdated := True\<rparr>\<rparr>))))"

definition stepDocs ::
  "'w services \<Rightarrow> string \<Rightarrow> QuickSyncOptions \<Rightarrow> 'w run_state \<Rightarrow> 'w run_state" where
  "stepDocs sv absolutePath options s =
     (if truthy (skipDocs options) then s
      else guarded ''Failed to check docs'' (checkDocs sv absolutePath options) s)"

text \<open>
  \<open>QuickSyncService.run\<close>. The value is the final state: the \<open>QuickSyncResult\<close> that
  \<open>run\<close> returns, with the trace and the environment it leaves.
\<close>

definition initial_state :: "'w fs_scheme \<Rightarrow> 'w run_state" where
  "initial_state w =
     \<lparr>result = \<lparr>agentsSynced = 0, skillsExported = 0, commandsSynced = 0,
                 docsUpdated = False, errors = []\<rparr>,
      trace = [], world = w\<rparr>"

definition run :: "'w services \<Rightarrow> string \<Rightarrow> QuickSyncOptions \<Rightarrow> 'w fs_scheme \<Rightarrow> 'w run_state" where
  "run sv repoPath options w =
     (let absolutePath = path_resolve sv [repoPath];
          s0 = initial_state w;
          s1 = stepAgents sv absolutePath options s0;
          s2 = stepSkills sv absolutePath options s1;
          s3 = stepCommands sv absolutePath options s2;
          s4 = stepRules sv absolutePath options s3;
          s5 = stepDocs sv absolutePath options s4
      in s5)"

subsection \<open>Vocabulary of the file-system claims\<close>

text \<open>
  The destination of a template, whether \<open>generateCommands\<close> writes it (forced, or
  nothing is at the destination), and a file system in which the predefined command was
  generated before.
\<close>

definition template_path :: "string \<Rightarrow> CommandTemplate \<Rightarrow> string" where
  "template_path dir c = path_join dir (filename c)"

definition template_written :: "bool \<Rightarrow> string \<Rightarrow> 'w fs_scheme \<Rightarrow> CommandTemplate \<Rightarrow> bool" where
  "template_written frc dir st c = (frc \<or> template_path dir c \<notin> dom (files st))"

definition seeded_fs :: fs where
  "seeded_fs = \<lparr>files = [''.context/commands/init-mcp-only.md'' \<mapsto> ''old''], dirs = {''.context''}\<rparr>"

definition exported_fs :: fs where
  "exported_fs = \<lparr>files = [''.context/commands/init-mcp-only.md'' \<mapsto> ''hi''], dirs = {''.context/commands''}\<rparr>"

subsection \<open>Vocabulary of the orchestration claims\<close>

text \<open>
  The passes that a run attempts are read off its trace: every \<open>try\<close> block starts
  the spinner first. \<open>expected_passes\<close> is the list of the passes that the options
  leave enabled, by message key and in the order of the source; it does not mention the
  services. \<open>thrown\<close> is the message a \<open>try\<close> block threw, if it did.
\<close>

fun spinner_starts :: "event list \<Rightarrow> string list" where
  "spinner_starts [] = []"
| "spinner_starts (StartSpinner k # es) = k # spinner_starts es"
| "spinner_starts (e # es) = spinner_starts es"

definition agents_enabled :: "QuickSyncOptions \<Rightarrow> bool" where
  "agents_enabled options = (\<not> truthy (skipAgents options) \<and> \<not> isEmptyArray (agentTargets options))"

definition skills_enabled :: "QuickSyncOptions \<Rightarrow> bool" where
  "skills_enabled options = (\<not> truthy (skipSkills options) \<and> \<not> isEmptyArray (skillTargets options))"

definition commands_enabled :: "QuickSyncOptions \<Rightarrow> bool" where
  "commands_enabled options =
     (\<not> truthy (skipCommands options) \<and> \<not> isEmptyArray (commandTargets options))"

definition rules_enabled :: "QuickSyncOptions \<Rightarrow> bool" where
  "rules_enabled options = (\<not> truthy (skipDocs options) \<and> \<not> isEmptyArray (docTargets options))"

definition docs_enabled :: "QuickSyncOptions \<Rightarrow> bool" where
  "docs_enabled options = (\<not> truthy (skipDocs options))"

definition expected_passes :: "QuickSyncOptions \<Rightarrow> string list" where
  "expected_passes options =
     (if agents_enabled options then [''prompts.quickSync.syncing.agents''] else [])
     @ (if skills_enabled options then [''prompts.quickSync.syncing.skills''] else [])
     @ (if commands_enabled options then [''prompts.quickSync.syncing.commands''] else [])
     @ (if rules_enabled options then [''prompts.quickSync.syncing.rules''] else [])
     @ (if docs_enabled options then [''prompts.quickSync.syncing.docs''] else [])"

definition thrown :: "unit outcome \<times> 'w run_state \<Rightarrow> string list" where
  "thrown r = (case fst r of Inl e \<Rightarrow> [e] | Inr u \<Rightarrow> [])"

text \<open>The options with every field absent, as in \<open>run(repoPath)\<close>.\<close>

definition default_options :: QuickSyncOptions where
  "default_options =
     \<lparr>skipAgents = None, skipSkills = None, skipDocs = None, force = None, dryRun = None,
      verbose = None, agentTargets = None, skillTargets = None, docTargets = None,
      skipCommands = None, commandTargets = None\<rparr>"

text \<open>
  Two environments for the closed examples: a repository with an agents directory
  only, with services that succeed and find nothing, and the same with a sync service
  that throws.
\<close>

definition agents_only_fs :: fs where
  "agents_only_fs = \<lparr>files = Map.empty, dirs = {''/repo/.context/agents''}\<rparr>"

definition quiet_services :: "unit services" where
  "quiet_services =
     \<lparr>syncService_run = (\<lambda>args w. (Inr (), w)),
      skillExport_run = (\<lambda>p args w. (Inr [], w)),
      exportRules_run = (\<lambda>p args w. (Inr (), w)),
      detector_detect = (\<lambda>p w. (Inr \<lparr>det_state = ''fresh'', det_daysBehind = None\<rparr>, w)),
      fs_readdir = (\<lambda>p w. Inr []),
      commandsSyncPresets = [(''cursor'', ''.cursor/commands''), (''antigravity'', ''.agent/workflows'')],
      path_resolve = (\<lambda>segments. join ''/'' segments),
      translate = (\<lambda>key days. key)\<rparr>"

definition failing_services :: "unit services" where
  "failing_services = quiet_services\<lparr>syncService_run := (\<lambda>args w. (Inl ''boom'', w))\<rparr>"

text \<open>
  A third environment: a repository with the four source directories and one command
  file, and services whose directory listing names that file. \<open>no_targets\<close> are the
  options with every target list an empty array.
\<close>

definition full_fs :: fs where
  "full_fs =
     \<lparr>files = [''/repo/.context/commands/init-mcp-only.md'' \<mapsto> ''hello''],
      dirs = {''/repo/.context/agents'', ''/repo/.context/skills'',
              ''/repo/.context/commands'', ''/repo/.context/docs''}\<rparr>"

definition listing_services :: "unit services" where
  "listing_services = quiet_services\<lparr>fs_readdir := (\<lambda>p w. Inr [''init-mcp-only.md''])\<rparr>"

definition no_targets :: QuickSyncOptions where
  "no_targets = default_options\<lparr>agentTargets := Some [], skillTargets := Some [],
     docTargets := Some [], commandTargets := Some []\<rparr>"

fun is_sync_call :: "event \<Rightarrow> bool" where
  "is_sync_call (SyncServiceRun args) = True"
| "is_sync_call e = False"

text \<open>
  The arguments of the one call that the commands step makes to the sync service, and
  the paths of the registered commands presets other than \<open>antigravity\<close>.
\<close>

definition commands_sync_args :: "string \<Rightarrow> QuickSyncOptions \<Rightarrow> string list \<Rightarrow> SyncRunOptions" where
  "commands_sync_args a options paths =
     \<lparr>sync_source = path_join (path_join a ''.context'') ''commands'', sync_preset = None,
      sync_target = Some paths, sync_force = force options, sync_dryRun = dryRun options,
      sync_verbose = False\<rparr>"

definition other_preset_paths :: "'w services \<Rightarrow> string \<Rightarrow> string list" where
  "other_preset_paths sv a =
     map (\<lambda>p. path_resolve sv [a, p])
       (List.map_filter (map_of (commandsSyncPresets sv))
          (filter (\<lambda>id. id \<noteq> ''antigravity'') (map fst (commandsSyncPresets sv))))"

section \<open>What the patterns compute\<close>

text \<open>
  The functions below say in plain list terms what the patterns of the source find;
  the lemmas of the second part prove that the matcher computes them. \<open>prev_after\<close>
  is the character before the position reached after reading \<open>u\<close>; a position is at
  a line start when it is the start of the input or follows a line terminator.
\<close>

definition prev_after :: "char option \<Rightarrow> string \<Rightarrow> char option" where
  "prev_after p u = (if u = [] then p else Some (last u))"

definition line_start :: "char option \<Rightarrow> bool" where
  "line_start p = (case p of None \<Rightarrow> True | Some c \<Rightarrow> isLineTerminator c)"

text \<open>
  The heading pattern on a text without trailing white space: the first \<open>#\<close> at a
  line start that is followed by white space; the heading text runs from the first
  character after that white space to the end of its line. The white space may include
  line breaks.
\<close>

fun find_heading :: "char option \<Rightarrow> string \<Rightarrow> string option" where
  "find_heading p [] = None"
| "find_heading p (c # cs) =
     (if line_start p \<and> c = CHR ''#'' \<and> cs \<noteq> [] \<and> isSpace (hd cs)
      then Some (takeWhile isDot (dropWhile isSpace cs))
      else find_heading (Some c) cs)"

text \<open>Parts of the heading and of the numbered-item pattern, named for the proofs.\<close>

definition line_end :: regex where
  "line_end = Seq (Alt (Chr CHR ''\<newline>'') Eol) Eps"

definition heading_tail :: regex where
  "heading_tail = Seq (Group (LazyPlus (Cls isDot))) line_end"


text \<open>A text has content when some character of it is not white space.\<close>

definition has_text :: "string \<Rightarrow> bool" where
  "has_text s = (filter (\<lambda>c. \<not> isSpace c) s \<noteq> [])"

text \<open>\<open>replace(/\s+/g, ' ')\<close>: every maximal run of white space becomes one space.\<close>

function collapse_spaces :: "string \<Rightarrow> string" where
  "collapse_spaces [] = []"
| "collapse_spaces (x # xs) =
     (if isSpace x then CHR '' '' # collapse_spaces (dropWhile isSpace xs)
      else x # collapse_spaces xs)"
  by pat_completeness auto
termination
  by (relation "measure length") (auto simp: less_Suc_eq_le length_dropWhile_le)

text \<open>\<open>split(/\n/)\<close>: the lines of a text, the last one included when it is empty.\<close>

fun split_lines :: "string \<Rightarrow> string list" where
  "split_lines [] = [[]]"
| "split_lines (c # cs) =
     (if c = CHR ''\<newline>'' then [] # split_lines cs
      else (case split_lines cs of [] \<Rightarrow> [[c]] | l # ls \<Rightarrow> (c # l) # ls))"

text \<open>The cut to 250 characters, and where \<open>deriveDescription\<close> takes its text from.\<close>

definition truncate_description :: "string \<Rightarrow> string" where
  "truncate_description s = (if length s \<le> 250 then s else take 247 s @ ''...'')"

definition description_source :: "string \<Rightarrow> string" where
  "description_source t =
     (case find_heading None t of
        Some h \<Rightarrow> trim h
      | None \<Rightarrow>
          (let l = trim (takeWhile (\<lambda>c. c \<noteq> CHR ''\<newline>'') t)
           in if l = [] then ''Workflow'' else l))"

definition newline_to_space :: "char \<Rightarrow> char" where
  "newline_to_space c = (if c = CHR ''\<newline>'' then CHR '' '' else c)"




section \<open>The description in the words of the specification\<close>

text \<open>
  A second description, written from the sentence of the specification and not from the
  source, to be compared with \<open>deriveDescription\<close>: the text of the first first-level
  heading if there is one, else the first line that is not empty, with white space
  collapsed and the cut to 250 characters. A first-level heading is a \<open>#\<close> at a line
  start, one or more blanks (white space other than a line break) and text on the same
  line; its text is the rest of the line, trimmed.
\<close>

definition isBlank :: "char \<Rightarrow> bool" where
  "isBlank c = (isSpace c \<and> \<not> isLineTerminator c)"

definition heading_rest :: "string \<Rightarrow> bool" where
  "heading_rest cs =
     (cs \<noteq> [] \<and> isBlank (hd cs) \<and>
      (case dropWhile isBlank cs of [] \<Rightarrow> False | x # r \<Rightarrow> \<not> isLineTerminator x))"

fun first_heading :: "char option \<Rightarrow> string \<Rightarrow> string option" where
  "first_heading p [] = None"
| "first_heading p (c # cs) =
     (if line_start p \<and> c = CHR ''#'' \<and> heading_rest cs
      then Some (trim (takeWhile isDot cs))
      else first_heading (Some c) cs)"

fun first_nonempty_line :: "string list \<Rightarrow> string" where
  "first_nonempty_line [] = []"
| "first_nonempty_line (l # ls) = (if trim l = [] then first_nonempty_line ls else trim l)"

definition claimed_description :: "string \<Rightarrow> string" where
  "claimed_description md =
     truncate_description (trim (collapse_spaces
       (case first_heading None (trim md) of
          Some h \<Rightarrow> h
        | None \<Rightarrow> first_nonempty_line (split_lines md))))"

text \<open>
  A \<open>#\<close> at a line start that is followed, after blanks if any, by a line break: a
  heading line without text. \<open>empty_heading_free\<close> says that a text has none.
\<close>

definition heading_without_text :: "string \<Rightarrow> bool" where
  "heading_without_text cs =
     (case dropWhile isBlank cs of [] \<Rightarrow> False | x # r \<Rightarrow> isLineTerminator x)"

fun empty_heading_free :: "char option \<Rightarrow> string \<Rightarrow> bool" where
  "empty_heading_free p [] = True"
| "empty_heading_free p (c # cs) =
     (\<not> (line_start p \<and> c = CHR ''#'' \<and> heading_without_text cs)
      \<and> empty_heading_free (Some c) cs)"

section \<open>The numbered item in the words of the specification\<close>



section \<open>Lemmas on the matcher\<close>

declare re_replace_from.simps [simp del]

lemma flags_simps [simp]:
  "multiline no_flags = False" "ignoreCase no_flags = False"
  "multiline flag_i = False" "ignoreCase flag_i = True"
  "multiline flag_m = True" "ignoreCase flag_m = False"
  by (simp_all add: no_flags_def flag_i_def flag_m_def)

lemma rmatch_Chr_Nil [simp]: "rmatch f (Chr c) (p, [], g) = []"
  by simp

lemma rmatch_Chr_Cons [simp]:
  "rmatch f (Chr c) (p, x # xs, g) = (if chr_eq f c x then [(Some x, xs, g)] else [])"
  by simp

lemma rmatch_Cls_Nil [simp]: "rmatch f (Cls P) (p, [], g) = []"
  by simp

lemma rmatch_Cls_Cons [simp]:
  "rmatch f (Cls P) (p, x # xs, g) = (if P x then [(Some x, xs, g)] else [])"
  by simp

lemma rmatch_Bol_None [simp]: "rmatch f Bol (None, s, g) = [(None, s, g)]"
  by simp

lemma rmatch_Bol_Some [simp]:
  "rmatch f Bol (Some c, s, g) =
     (if multiline f \<and> isLineTerminator c then [(Some c, s, g)] else [])"
  by simp

lemma rmatch_Eol_Nil [simp]: "rmatch f Eol (p, [], g) = [(p, [], g)]"
  by simp

lemma rmatch_Eol_Cons [simp]:
  "rmatch f Eol (p, x # xs, g) =
     (if multiline f \<and> isLineTerminator x then [(p, x # xs, g)] else [])"
  by simp

declare rmatch.simps(2,3,4,5) [simp del]

lemma list_cases4:
  assumes "s = [] \<Longrightarrow> P" "\<And>a. s = [a] \<Longrightarrow> P" "\<And>a b. s = [a, b] \<Longrightarrow> P"
    "\<And>a b c. s = [a, b, c] \<Longrightarrow> P" "\<And>a b c d r. s = a # b # c # d # r \<Longrightarrow> P"
  shows P
proof (cases s)
  case Nil
  then show ?thesis using assms(1) by simp
next
  case c1: (Cons a s1)
  show ?thesis
  proof (cases s1)
    case Nil
    then show ?thesis using assms(2) c1 by simp
  next
    case c2: (Cons b s2)
    show ?thesis
    proof (cases s2)
      case Nil
      then show ?thesis using assms(3) c1 c2 by simp
    next
      case (Cons c s3)
      then show ?thesis using assms(4,5) c1 c2 by (cases s3) simp_all
    qed
  qed
qed

lemma prev_after_simps [simp]:
  "prev_after p [] = p"
  "prev_after p (x # xs) = prev_after (Some x) xs"
  by (simp_all add: prev_after_def)

lemma rmatch_Star_Cls_Nil [simp]: "rmatch f (Star (Cls P)) (p, [], g) = [(p, [], g)]"
  by simp

lemma rmatch_Star_Cls_Cons:
  "rmatch f (Star (Cls P)) (p, x # xs, g) =
     (if P x then rmatch f (Star (Cls P)) (Some x, xs, g) @ [(p, x # xs, g)] else [(p, x # xs, g)])"
  by simp

lemma rmatch_LazyStar_Cls_Nil [simp]: "rmatch f (LazyStar (Cls P)) (p, [], g) = [(p, [], g)]"
  by simp

lemma rmatch_LazyStar_Cls_Cons:
  "rmatch f (LazyStar (Cls P)) (p, x # xs, g) =
     (if P x then (p, x # xs, g) # rmatch f (LazyStar (Cls P)) (Some x, xs, g) else [(p, x # xs, g)])"
  by simp

declare rmatch.simps(8,9) [simp del]

text \<open>The preferred match of a greedy class star takes the whole run.\<close>

lemma rmatch_Star_Cls_hd:
  "\<exists>rest. rmatch f (Star (Cls P)) (p, s, g) =
      (prev_after p (takeWhile P s), dropWhile P s, g) # rest"
proof (induction s arbitrary: p)
  case Nil
  show ?case by simp
next
  case (Cons x xs)
  from Cons[of "Some x"] show ?case
    by (auto simp: rmatch_Star_Cls_Cons)
qed


lemma rmatch_LazyStar_Cls_skip:
  assumes "\<And>p' x xs g'. P x \<Longrightarrow> F (p', x # xs, g') = []"
  shows "concat (map F (rmatch f (LazyStar (Cls P)) (p, s, g)))
           = F (prev_after p (takeWhile P s), dropWhile P s, g)"
proof (induction s arbitrary: p)
  case Nil
  show ?case by simp
next
  case (Cons x xs)
  show ?case by (simp add: rmatch_LazyStar_Cls_Cons Cons assms)
qed

lemma rmatch_Plus_Cls_Nil [simp]: "rmatch f (Plus (Cls P)) (p, [], g) = []"
  by (simp add: Plus_def)

lemma rmatch_Plus_Cls_Cons:
  "rmatch f (Plus (Cls P)) (p, x # xs, g) =
     (if P x then rmatch f (Star (Cls P)) (Some x, xs, g) else [])"
  by (simp add: Plus_def)

lemma rmatch_LazyPlus_Cls_Nil [simp]: "rmatch f (LazyPlus (Cls P)) (p, [], g) = []"
  by (simp add: LazyPlus_def)

lemma rmatch_LazyPlus_Cls_Cons:
  "rmatch f (LazyPlus (Cls P)) (p, x # xs, g) =
     (if P x then rmatch f (LazyStar (Cls P)) (Some x, xs, g) else [])"
  by (simp add: LazyPlus_def)


section \<open>Filenames\<close>

lemma rmatch_dash:
  "rmatch no_flags re_dash (p, s, g) =
     (case s of [] \<Rightarrow> [] | x # xs \<Rightarrow> if x = CHR ''-'' then [(Some x, xs, g)] else [])"
  by (auto simp: re_dash_def chr_eq_def split: list.splits)

lemma replace_dash_from:
  "re_replace_from no_flags re_dash ''_'' p s =
     map (\<lambda>c. if c = CHR ''-'' then CHR ''_'' else c) s"
proof (induction s arbitrary: p)
  case Nil
  show ?case by (subst re_replace_from.simps) (simp add: rmatch_dash)
next
  case (Cons x xs)
  show ?case by (subst re_replace_from.simps) (simp add: rmatch_dash Cons)
qed

lemma rmatch_md_ext_length:
  "rmatch flag_i re_md_ext (p, s, g) \<noteq> [] \<Longrightarrow> length s = 3"
  by (cases s rule: list_cases4) (auto simp: re_md_ext_def split: if_splits)

lemma rmatch_md_ext_md:
  "rmatch flag_i re_md_ext (p, ''.md'', g) = [(Some CHR ''d'', [], g)]"
  by (simp add: re_md_ext_def chr_eq_def canonicalize_def)

text \<open>The extension pattern finds the final \<open>.md\<close> and nothing before it.\<close>

lemma search_md_ext:
  "re_search flag_i re_md_ext p (base @ ''.md'') = Some (base, (Some CHR ''d'', [], None))"
proof (induction base arbitrary: p)
  case Nil
  show ?case by (simp add: rmatch_md_ext_md)
next
  case (Cons x xs)
  have "rmatch flag_i re_md_ext (p, x # xs @ ''.md'', None) = []"
    using rmatch_md_ext_length[of p "x # xs @ ''.md''" None] by auto
  then show ?case by (simp add: Cons)
qed

lemma toAntigravityFilename_md:
  "toAntigravityFilename (base @ ''.md'') = map underscore_lower base @ ''.md''"
  by (simp add: toAntigravityFilename_def re_replace_def search_md_ext re_replace_all_def
        replace_dash_from toLowerCase_def o_def underscore_lower_def)

lemma toLowerChar_kebab: "kebab_char c \<Longrightarrow> toLowerChar c = c"
  by (auto simp: kebab_char_def toLowerChar_def)

lemma toLowerChar_alnum: "alnum_char c \<Longrightarrow> kebab_char (toLowerChar c)"
  by (auto simp: alnum_char_def kebab_char_def toLowerChar_def char_of_def bit_Suc_0_iff)

lemma kebab_char_not_special:
  "kebab_char c \<Longrightarrow> c \<noteq> CHR ''.'' \<and> c \<noteq> CHR ''-'' \<and> c \<noteq> CHR ''_''"
  by (auto simp: kebab_char_def)

lemma alnum_char_not_dash: "alnum_char c \<Longrightarrow> c \<noteq> CHR ''-''"
  by (auto simp: alnum_char_def kebab_char_def)

lemma underscore_lower_dash: "map underscore_lower ''-'' = ''_''"
  by (simp add: underscore_lower_def toLowerChar_def)

lemma map_join: "map h (join sep ws) = join (map h sep) (map (map h) ws)"
  by (induction sep ws rule: join.induct) simp_all

lemma underscore_lower_word:
  "\<forall>c\<in>set w. alnum_char c \<Longrightarrow> map underscore_lower w = toLowerCase w"
  by (induction w) (auto simp: underscore_lower_def toLowerCase_def alnum_char_not_dash)

lemma set_join: "set (join sep ws) \<subseteq> set sep \<union> \<Union>(set ` set ws)"
  by (induction sep ws rule: join.induct) auto

text \<open>
  Claim C8. A filename \<open>x-y-z.md\<close> whose words are made of letters and digits becomes
  \<open>x_y_z.md\<close> with the words in lower case: every \<open>-\<close> is an \<open>_\<close>, the words of a
  valid (lower-case) kebab name are unchanged, and the result has exactly one \<open>.\<close>, that
  of the single \<open>.md\<close> extension.
\<close>

theorem toAntigravityFilename_kebab:
  assumes "\<forall>w\<in>set ws. \<forall>c\<in>set w. alnum_char c"
  shows "toAntigravityFilename (join ''-'' ws @ ''.md'') = join ''_'' (map toLowerCase ws) @ ''.md''
       \<and> ((\<forall>w\<in>set ws. \<forall>c\<in>set w. kebab_char c) \<longrightarrow>
            toAntigravityFilename (join ''-'' ws @ ''.md'') = join ''_'' ws @ ''.md'')
       \<and> filter (\<lambda>c. c = CHR ''.'') (toAntigravityFilename (join ''-'' ws @ ''.md'')) = ''.''"
proof -
  have words: "map (map underscore_lower) ws = map toLowerCase ws"
    using assms by (simp add: underscore_lower_word)
  have "map underscore_lower (join ''-'' ws) = join ''_'' (map (map underscore_lower) ws)"
    by (simp only: map_join underscore_lower_dash)
  then have main:
    "toAntigravityFilename (join ''-'' ws @ ''.md'') = join ''_'' (map toLowerCase ws) @ ''.md''"
    using words by (simp add: toAntigravityFilename_md)
  have lower: "(\<forall>w\<in>set ws. \<forall>c\<in>set w. kebab_char c) \<Longrightarrow> map toLowerCase ws = ws"
    by (induction ws) (simp_all add: toLowerCase_def toLowerChar_kebab map_idI)
  have nodot: "\<forall>c\<in>set (join ''_'' (map toLowerCase ws)). c \<noteq> CHR ''.''"
  proof
    fix c assume "c \<in> set (join ''_'' (map toLowerCase ws))"
    then have "c = CHR ''_'' \<or> (\<exists>w\<in>set ws. c \<in> set (toLowerCase w))"
      using set_join[of "''_''" "map toLowerCase ws"] by auto
    then show "c \<noteq> CHR ''.''"
      using assms toLowerChar_alnum kebab_char_not_special
      by (fastforce simp: toLowerCase_def)
  qed
  have "filter (\<lambda>c. c = CHR ''.'') (join ''_'' (map toLowerCase ws)) = []"
    using nodot by (simp add: filter_empty_conv)
  then show ?thesis using main lower by simp
qed

theorem toAntigravityFilename_kebab_witness:
  "toAntigravityFilename ''init-mcp-only.md'' = ''init_mcp_only.md''
   \<and> filter (\<lambda>c. c = CHR ''.'') (toAntigravityFilename ''init-mcp-only.md'') = ''.''"
  using toAntigravityFilename_kebab[of "[''init'', ''mcp'', ''only'']"]
  by (simp add: kebab_char_def alnum_char_def toLowerCase_def toLowerChar_def)

section \<open>Generating and exporting commands\<close>

lemma path_join_inj [simp]: "path_join d a = path_join d b \<longleftrightarrow> a = b"
  by (simp add: path_join_def)

lemma path_join_neq [simp]: "path_join d a \<noteq> d"
  by (simp add: path_join_def)

lemma generateCommands_loop_ok:
  assumes "distinct (map filename cmds)" "\<forall>c\<in>set cmds. template_path dir c \<notin> dirs st"
  shows "\<exists>st'. generateCommands_loop frc dir cmds gen skp st =
           (Inr (gen @ map filename (filter (template_written frc dir st) cmds),
                 skp @ map filename (filter (\<lambda>c. \<not> template_written frc dir st c) cmds)), st')
         \<and> dirs st' = dirs st
         \<and> (\<forall>q. q \<notin> template_path dir ` set cmds \<longrightarrow> files st' q = files st q)
         \<and> (\<forall>c\<in>set cmds. files st' (template_path dir c) =
               (if template_written frc dir st c then Some (trimEnd (content c) @ ''\<newline>'')
                else files st (template_path dir c)))"
  using assms
proof (induction cmds arbitrary: gen skp st)
  case Nil
  then show ?case by simp
next
  case (Cons cmd cmds)
  let ?p = "template_path dir cmd"
  have pnd: "?p \<notin> dirs st" using Cons.prems by simp
  have others: "\<forall>c\<in>set cmds. template_path dir c \<noteq> ?p"
  proof
    fix c assume "c \<in> set cmds"
    then have "filename c \<in> set (map filename cmds)" by simp
    moreover have "filename cmd \<notin> set (map filename cmds)" using Cons.prems(1) by simp
    ultimately have "filename c \<noteq> filename cmd" by metis
    then show "template_path dir c \<noteq> ?p" by (simp add: template_path_def)
  qed
  show ?case
  proof (cases "template_written frc dir st cmd")
    case False
    then have ex: "pathExists ?p st \<and> \<not> frc"
      by (simp add: template_written_def pathExists_def)
    from Cons.IH[of st gen "skp @ [filename cmd]"] Cons.prems
    obtain st' where st':
      "generateCommands_loop frc dir cmds gen (skp @ [filename cmd]) st =
           (Inr (gen @ map filename (filter (template_written frc dir st) cmds),
                 (skp @ [filename cmd]) @ map filename (filter (\<lambda>c. \<not> template_written frc dir st c) cmds)), st')"
      "dirs st' = dirs st"
      "\<forall>q. q \<notin> template_path dir ` set cmds \<longrightarrow> files st' q = files st q"
      "\<forall>c\<in>set cmds. files st' (template_path dir c) =
               (if template_written frc dir st c then Some (trimEnd (content c) @ ''\<newline>'')
                else files st (template_path dir c))"
      by auto
    have "files st' ?p = files st ?p" using spec[OF st'(3), of ?p] others by auto
    then show ?thesis using False ex st'
      by (auto simp: Let_def template_path_def[symmetric] simp del: path_join_inj)
  next
    case True
    let ?st1 = "st\<lparr>files := (files st)(?p \<mapsto> trimEnd (content cmd) @ ''\<newline>'')\<rparr>"
    have nex: "\<not> (pathExists ?p st \<and> \<not> frc)"
      using True pnd by (auto simp: template_written_def pathExists_def)
    have w: "writeFile ?p (trimEnd (content cmd) @ ''\<newline>'') st = (Inr (), ?st1)"
      using pnd by (simp add: writeFile_def)
    have same: "\<forall>c\<in>set cmds. template_written frc dir ?st1 c = template_written frc dir st c"
      using others by (auto simp: template_written_def)
    have f1: "filter (template_written frc dir ?st1) cmds = filter (template_written frc dir st) cmds"
      using same by (auto intro: filter_cong)
    have f2: "filter (\<lambda>c. \<not> template_written frc dir ?st1 c) cmds = filter (\<lambda>c. \<not> template_written frc dir st c) cmds"
      using same by (auto intro: filter_cong)
    have pre: "distinct (map filename cmds)" "\<forall>c\<in>set cmds. template_path dir c \<notin> dirs ?st1"
      using Cons.prems by auto
    from Cons.IH[OF pre, of "gen @ [filename cmd]" skp]
    obtain st' where st':
      "generateCommands_loop frc dir cmds (gen @ [filename cmd]) skp ?st1 =
           (Inr ((gen @ [filename cmd]) @ map filename (filter (template_written frc dir ?st1) cmds),
                 skp @ map filename (filter (\<lambda>c. \<not> template_written frc dir ?st1 c) cmds)), st')"
      "dirs st' = dirs ?st1"
      "\<forall>q. q \<notin> template_path dir ` set cmds \<longrightarrow> files st' q = files ?st1 q"
      "\<forall>c\<in>set cmds. files st' (template_path dir c) =
               (if template_written frc dir ?st1 c then Some (trimEnd (content c) @ ''\<newline>'')
                else files ?st1 (template_path dir c))"
      by auto
    have atp: "files st' ?p = Some (trimEnd (content cmd) @ ''\<newline>'')"
      using spec[OF st'(3), of ?p] others by auto
    have loop: "generateCommands_loop frc dir (cmd # cmds) gen skp st =
       generateCommands_loop frc dir cmds (gen @ [filename cmd]) skp ?st1"
      using nex w by (auto simp: Let_def template_path_def[symmetric] simp del: path_join_inj)
    show ?thesis
      unfolding loop st'(1)
      using True st'(2,3,4) atp others same f1 f2
      by (auto simp del: path_join_inj)
  qed
qed

lemma generateCommands_ok:
  assumes "distinct (map filename templates)"
    and "path_join outputDir ''commands'' \<notin> dom (files st)"
    and "\<forall>c\<in>set templates. template_path (path_join outputDir ''commands'') c \<notin> dirs st"
  shows "\<exists>st'. generateCommands templates outputDir force_opt st =
           (Inr \<lparr>commandsDir = path_join outputDir ''commands'',
                  generated = map filename (filter (template_written (force_opt = Some True) (path_join outputDir ''commands'') st) templates),
                  skipped = map filename (filter (\<lambda>c. \<not> template_written (force_opt = Some True) (path_join outputDir ''commands'') st c) templates)\<rparr>, st')
         \<and> (\<forall>c\<in>set templates. files st' (template_path (path_join outputDir ''commands'') c) =
               (if template_written (force_opt = Some True) (path_join outputDir ''commands'') st c
                then Some (trimEnd (content c) @ ''\<newline>'')
                else files st (template_path (path_join outputDir ''commands'') c)))"
proof -
  let ?d = "path_join outputDir ''commands''"
  let ?st1 = "st\<lparr>dirs := insert ?d (dirs st)\<rparr>"
  let ?frc = "case force_opt of None \<Rightarrow> False | Some b \<Rightarrow> b"
  have frc: "?frc = (force_opt = Some True)" by (cases force_opt) auto
  have e: "ensureDir ?d st = (Inr (), ?st1)" using assms(2) by (simp add: ensureDir_def)
  have nd: "\<forall>c\<in>set templates. template_path ?d c \<notin> dirs ?st1"
    using assms(3) by (simp add: template_path_def)
  have tw: "template_written b ?d ?st1 = template_written b ?d st" for b
    by (rule ext) (simp add: template_written_def)
  from generateCommands_loop_ok[OF assms(1) nd, of ?frc "[]" "[]"]
  show ?thesis
    unfolding generateCommands_def Let_def e frc tw by auto
qed

lemma distinct_filename_eq:
  "distinct (map filename cs) \<Longrightarrow> a \<in> set cs \<Longrightarrow> b \<in> set cs \<Longrightarrow> filename a = filename b \<Longrightarrow> a = b"
  by (meson distinct_map inj_onD)

text \<open>
  Claim C5. For every template of the list (the file names being distinct), when the
  commands directory can be created and no destination is a directory,
  \<open>generateCommands\<close> returns, and: without \<open>force\<close>, a destination that exists keeps
  its content and its name is in \<open>skipped\<close> and not in \<open>generated\<close>, while an absent
  destination is written; with \<open>force\<close> the destination holds the template's content
  (trailing white space cut, one newline added) and the name is in \<open>generated\<close>.
\<close>

theorem generateCommands_skip_on_exists:
  assumes "cmd \<in> set templates" and "distinct (map filename templates)"
    and "path_join outputDir ''commands'' \<notin> dom (files st)"
    and "\<forall>c\<in>set templates. template_path (path_join outputDir ''commands'') c \<notin> dirs st"
  shows "\<exists>res st'. generateCommands templates outputDir force_opt st = (Inr res, st') \<and>
     (let p = template_path (path_join outputDir ''commands'') cmd in
        if force_opt = Some True \<or> p \<notin> dom (files st)
        then files st' p = Some (trimEnd (content cmd) @ ''\<newline>'')
             \<and> filename cmd \<in> set (generated res) \<and> filename cmd \<notin> set (skipped res)
        else files st' p = files st p
             \<and> filename cmd \<in> set (skipped res) \<and> filename cmd \<notin> set (generated res))"
proof -
  let ?d = "path_join outputDir ''commands''"
  let ?W = "template_written (force_opt = Some True) ?d st"
  from generateCommands_ok[OF assms(2,3,4), of force_opt]
  obtain st' where run:
    "generateCommands templates outputDir force_opt st =
       (Inr \<lparr>commandsDir = ?d, generated = map filename (filter ?W templates),
              skipped = map filename (filter (\<lambda>c. \<not> ?W c) templates)\<rparr>, st')"
    and fl: "\<forall>c\<in>set templates. files st' (template_path ?d c) =
               (if ?W c then Some (trimEnd (content c) @ ''\<newline>'') else files st (template_path ?d c))"
    by blast
  have mem: "filename cmd \<in> set (map filename (filter Q templates)) \<longleftrightarrow> Q cmd" for Q
  proof
    assume "filename cmd \<in> set (map filename (filter Q templates))"
    then obtain c where c: "c \<in> set templates" "Q c" "filename c = filename cmd" by auto
    then have "c = cmd" using distinct_filename_eq[OF assms(2) _ assms(1)] by blast
    then show "Q cmd" using c by simp
  next
    assume "Q cmd"
    then show "filename cmd \<in> set (map filename (filter Q templates))" using assms(1) by auto
  qed
  have W: "?W cmd = (force_opt = Some True \<or> template_path ?d cmd \<notin> dom (files st))"
    by (simp add: template_written_def)
  show ?thesis
    using run fl[rule_format, OF assms(1)] mem[of ?W] mem[of "\<lambda>c. \<not> ?W c"] W
    by (auto simp: Let_def)
qed

theorem generateCommands_skip_on_exists_witness:
  "(\<exists>res st'. generateCommands (PREDEFINED_COMMANDS ''# Init  '') ''.context'' None seeded_fs = (Inr res, st')
      \<and> files st' ''.context/commands/init-mcp-only.md'' = Some ''old''
      \<and> skipped res = [''init-mcp-only.md''] \<and> generated res = [])
   \<and> (\<exists>res st'. generateCommands (PREDEFINED_COMMANDS ''# Init  '') ''.context'' (Some True) seeded_fs = (Inr res, st')
      \<and> files st' ''.context/commands/init-mcp-only.md'' = Some ''# Init\<newline>''
      \<and> skipped res = [] \<and> generated res = [''init-mcp-only.md''])"
  using generateCommands_skip_on_exists[of "\<lparr>filename = ''init-mcp-only.md'', content = ''# Init  ''\<rparr>"
      "PREDEFINED_COMMANDS ''# Init  ''" "''.context''" seeded_fs None]
    generateCommands_skip_on_exists[of "\<lparr>filename = ''init-mcp-only.md'', content = ''# Init  ''\<rparr>"
      "PREDEFINED_COMMANDS ''# Init  ''" "''.context''" seeded_fs "Some True"]
  by (simp add: PREDEFINED_COMMANDS_def seeded_fs_def template_path_def path_join_def
        generateCommands_def ensureDir_def pathExists_def writeFile_def trimEnd_def isSpace_def Let_def)

lemma exportCommands_loop_count:
  "exportCommands_loop src tgt names w st = (Inr n, st') \<Longrightarrow> n = w + length names"
proof (induction names arbitrary: w st)
  case Nil
  then show ?case by simp
next
  case (Cons name names)
  then show ?case
    by (fastforce simp: Let_def split: sum.splits prod.splits)
qed

lemma exportCommands_loop_ok:
  assumes "\<forall>name\<in>set names. path_join src name \<in> dom (files st)
              \<and> path_join tgt (toAntigravityFilename name) \<notin> dirs st"
  shows "\<exists>st'. exportCommands_loop src tgt names w st = (Inr (w + length names), st')"
  using assms
proof (induction names arbitrary: w st)
  case Nil
  then show ?case by simp
next
  case (Cons name names)
  from Cons.prems obtain cnt where rd: "readFile (path_join src name) st = Inr cnt"
    by (auto simp: readFile_def)
  let ?out = "path_join tgt (toAntigravityFilename name)"
  let ?st1 = "st\<lparr>files := (files st)(?out \<mapsto> toAntigravityWorkflowContent cnt None)\<rparr>"
  have wr: "writeFile ?out (toAntigravityWorkflowContent cnt None) st = (Inr (), ?st1)"
    using Cons.prems by (simp add: writeFile_def)
  have "\<forall>name\<in>set names. path_join src name \<in> dom (files ?st1)
              \<and> path_join tgt (toAntigravityFilename name) \<notin> dirs ?st1"
    using Cons.prems by auto
  from Cons.IH[OF this, of "w + 1"] show ?case
    by (simp add: rd wr Let_def)
qed

text \<open>
  Claim C4. With \<open>dryRun\<close> the export returns the number of file names and leaves the
  file system as it was: no file, no directory. Whenever the real run returns, it returns
  that same number, and it does return when the target is not a regular file, every
  source file exists and no output path is a directory.
\<close>

theorem exportCommands_dryRun:
  "exportCommandsToAntigravity src tgt names frc True st = (Inr (length names), st)
   \<and> (\<forall>n st'. exportCommandsToAntigravity src tgt names frc False st = (Inr n, st')
         \<longrightarrow> n = length names)
   \<and> (tgt \<notin> dom (files st)
        \<and> (\<forall>name\<in>set names. path_join src name \<in> dom (files st)
              \<and> path_join tgt (toAntigravityFilename name) \<notin> dirs st)
      \<longrightarrow> (\<exists>st'. exportCommandsToAntigravity src tgt names frc False st = (Inr (length names), st')))"
proof (intro conjI allI impI)
  show "exportCommandsToAntigravity src tgt names frc True st = (Inr (length names), st)"
    by (simp add: exportCommandsToAntigravity_def)
next
  fix n st'
  assume "exportCommandsToAntigravity src tgt names frc False st = (Inr n, st')"
  then show "n = length names"
    using exportCommands_loop_count[of src tgt names 0]
    by (auto simp: exportCommandsToAntigravity_def ensureDir_def split: if_splits)
next
  assume a: "tgt \<notin> dom (files st)
        \<and> (\<forall>name\<in>set names. path_join src name \<in> dom (files st)
              \<and> path_join tgt (toAntigravityFilename name) \<notin> dirs st)"
  let ?st1 = "st\<lparr>dirs := insert tgt (dirs st)\<rparr>"
  have "\<forall>name\<in>set names. path_join src name \<in> dom (files ?st1)
              \<and> path_join tgt (toAntigravityFilename name) \<notin> dirs ?st1"
    using a by simp
  from exportCommands_loop_ok[OF this, of 0] a
  show "\<exists>st'. exportCommandsToAntigravity src tgt names frc False st = (Inr (length names), st')"
    by (simp add: exportCommandsToAntigravity_def ensureDir_def)
qed

theorem exportCommands_dryRun_witness:
  "exportCommandsToAntigravity ''.context/commands'' ''.agent/workflows'' [''init-mcp-only.md'']
      False True exported_fs = (Inr 1, exported_fs)
   \<and> fst (exportCommandsToAntigravity ''.context/commands'' ''.agent/workflows''
      [''init-mcp-only.md''] False False exported_fs) = Inr 1"
proof -
  note t = exportCommands_dryRun[of "''.context/commands''" "''.agent/workflows''"
        "[''init-mcp-only.md'']" False exported_fs]
  have pre: "''.agent/workflows'' \<notin> dom (files exported_fs)
        \<and> (\<forall>name\<in>set [''init-mcp-only.md'']. path_join ''.context/commands'' name \<in> dom (files exported_fs)
              \<and> path_join ''.agent/workflows'' (toAntigravityFilename name) \<notin> dirs exported_fs)"
    by (simp add: exported_fs_def path_join_def)
  have "\<exists>st'. exportCommandsToAntigravity ''.context/commands'' ''.agent/workflows''
      [''init-mcp-only.md''] False False exported_fs = (Inr (length [''init-mcp-only.md'']), st')"
    using t pre by blast
  then have "fst (exportCommandsToAntigravity ''.context/commands'' ''.agent/workflows''
      [''init-mcp-only.md''] False False exported_fs) = Inr 1"
    by auto
  moreover have "exportCommandsToAntigravity ''.context/commands'' ''.agent/workflows'' [''init-mcp-only.md'']
      False True exported_fs = (Inr 1, exported_fs)"
    using conjunct1[OF t] by simp
  ultimately show ?thesis by blast
qed

section \<open>The orchestration\<close>

declare showNat.simps [simp del]

lemma spinner_starts_append [simp]:
  "spinner_starts (xs @ ys) = spinner_starts xs @ spinner_starts ys"
  by (induction xs rule: spinner_starts.induct) simp_all

lemma guarded_starts:
  "spinner_starts (trace (guarded m body s)) = spinner_starts (trace (snd (body s)))"
  by (simp add: guarded_def emit_def push_error_def split: prod.splits sum.splits)

lemma guarded_errors:
  "errors (result (guarded m body s)) = errors (result (snd (body s))) @ thrown (body s)"
  by (simp add: guarded_def emit_def push_error_def thrown_def split: prod.splits sum.splits)

lemma syncAgents_starts:
  "spinner_starts (trace (snd (syncAgents sv a opts s)))
     = spinner_starts (trace s) @ [translate sv ''prompts.quickSync.syncing.agents'' None]"
  by (simp add: syncAgents_def Let_def emit_def split: prod.splits sum.splits)

lemma syncAgents_errors:
  "errors (result (snd (syncAgents sv a opts s))) = errors (result s)"
  by (simp add: syncAgents_def Let_def emit_def split: prod.splits sum.splits)

lemma exportSkills_starts:
  "spinner_starts (trace (snd (exportSkills sv a opts s)))
     = spinner_starts (trace s) @ [translate sv ''prompts.quickSync.syncing.skills'' None]"
  by (simp add: exportSkills_def Let_def emit_def split: prod.splits sum.splits)

lemma exportSkills_errors:
  "errors (result (snd (exportSkills sv a opts s))) = errors (result s)"
  by (simp add: exportSkills_def Let_def emit_def split: prod.splits sum.splits)

lemma syncCommands_starts:
  "spinner_starts (trace (snd (syncCommands sv a opts s)))
     = spinner_starts (trace s) @ [translate sv ''prompts.quickSync.syncing.commands'' None]"
  by (simp add: syncCommands_def Let_def emit_def split: prod.splits sum.splits option.splits)

lemma syncCommands_errors:
  "errors (result (snd (syncCommands sv a opts s))) = errors (result s)"
  by (simp add: syncCommands_def Let_def emit_def split: prod.splits sum.splits option.splits)

lemma exportRules_starts:
  "spinner_starts (trace (snd (exportRules sv a opts s)))
     = spinner_starts (trace s) @ [translate sv ''prompts.quickSync.syncing.rules'' None]"
  by (simp add: exportRules_def Let_def emit_def split: prod.splits sum.splits)

lemma exportRules_errors:
  "errors (result (snd (exportRules sv a opts s))) = errors (result s)"
  by (simp add: exportRules_def Let_def emit_def split: prod.splits sum.splits)

lemma checkDocs_starts:
  "spinner_starts (trace (snd (checkDocs sv a opts s)))
     = spinner_starts (trace s) @ [translate sv ''prompts.quickSync.syncing.docs'' None]"
  by (simp add: checkDocs_def Let_def emit_def split: prod.splits sum.splits)

lemma checkDocs_errors:
  "errors (result (snd (checkDocs sv a opts s))) = errors (result s)"
  by (simp add: checkDocs_def Let_def emit_def split: prod.splits sum.splits)

lemmas step_defs = stepAgents_def stepSkills_def stepCommands_def stepRules_def stepDocs_def

lemmas enabled_defs = agents_enabled_def skills_enabled_def commands_enabled_def
  rules_enabled_def docs_enabled_def

lemma stepAgents_starts:
  "spinner_starts (trace (stepAgents sv a opts s)) = spinner_starts (trace s)
     @ (if agents_enabled opts then [translate sv ''prompts.quickSync.syncing.agents'' None] else [])"
  by (simp add: stepAgents_def agents_enabled_def guarded_starts syncAgents_starts)

lemma stepSkills_starts:
  "spinner_starts (trace (stepSkills sv a opts s)) = spinner_starts (trace s)
     @ (if skills_enabled opts then [translate sv ''prompts.quickSync.syncing.skills'' None] else [])"
  by (simp add: stepSkills_def skills_enabled_def guarded_starts exportSkills_starts)

lemma stepCommands_starts:
  "spinner_starts (trace (stepCommands sv a opts s)) = spinner_starts (trace s)
     @ (if commands_enabled opts then [translate sv ''prompts.quickSync.syncing.commands'' None] else [])"
  by (simp add: stepCommands_def commands_enabled_def guarded_starts syncCommands_starts)

lemma stepRules_starts:
  "spinner_starts (trace (stepRules sv a opts s)) = spinner_starts (trace s)
     @ (if rules_enabled opts then [translate sv ''prompts.quickSync.syncing.rules'' None] else [])"
  by (simp add: stepRules_def rules_enabled_def guarded_starts exportRules_starts)

lemma stepDocs_starts:
  "spinner_starts (trace (stepDocs sv a opts s)) = spinner_starts (trace s)
     @ (if docs_enabled opts then [translate sv ''prompts.quickSync.syncing.docs'' None] else [])"
  by (simp add: stepDocs_def docs_enabled_def guarded_starts checkDocs_starts)

lemma stepAgents_errors:
  "errors (result (stepAgents sv a opts s)) = errors (result s)
     @ (if agents_enabled opts then thrown (syncAgents sv a opts s) else [])"
  by (simp add: stepAgents_def agents_enabled_def guarded_errors syncAgents_errors)

lemma stepSkills_errors:
  "errors (result (stepSkills sv a opts s)) = errors (result s)
     @ (if skills_enabled opts then thrown (exportSkills sv a opts s) else [])"
  by (simp add: stepSkills_def skills_enabled_def guarded_errors exportSkills_errors)

lemma stepCommands_errors:
  "errors (result (stepCommands sv a opts s)) = errors (result s)
     @ (if commands_enabled opts then thrown (syncCommands sv a opts s) else [])"
  by (simp add: stepCommands_def commands_enabled_def guarded_errors syncCommands_errors)

lemma stepRules_errors:
  "errors (result (stepRules sv a opts s)) = errors (result s)
     @ (if rules_enabled opts then thrown (exportRules sv a opts s) else [])"
  by (simp add: stepRules_def rules_enabled_def guarded_errors exportRules_errors)

lemma stepDocs_errors:
  "errors (result (stepDocs sv a opts s)) = errors (result s)
     @ (if docs_enabled opts then thrown (checkDocs sv a opts s) else [])"
  by (simp add: stepDocs_def docs_enabled_def guarded_errors checkDocs_errors)

lemma guarded_trace_mono: "set (trace (snd (body s))) \<subseteq> set (trace (guarded m body s))"
  by (auto simp: guarded_def emit_def push_error_def split: prod.splits sum.splits)

lemma stepAgents_default:
  assumes "\<not> truthy (skipAgents options)" "agentTargets options = None"
    "pathExists (path_join (path_join a ''.context'') ''agents'') (world s)"
  shows "SyncServiceRun \<lparr>sync_source = path_join (path_join a ''.context'') ''agents'',
            sync_preset = Some ''all'', sync_target = None, sync_force = force options,
            sync_dryRun = dryRun options, sync_verbose = False\<rparr>
          \<in> set (trace (stepAgents sv a options s))"
proof -
  have "SyncServiceRun \<lparr>sync_source = path_join (path_join a ''.context'') ''agents'',
            sync_preset = Some ''all'', sync_target = None, sync_force = force options,
            sync_dryRun = dryRun options, sync_verbose = False\<rparr>
          \<in> set (trace (snd (syncAgents sv a options s)))"
    using assms
    by (simp add: syncAgents_def Let_def emit_def hasCustom_def split: prod.splits sum.splits)
  then show ?thesis
    using assms guarded_trace_mono[of "syncAgents sv a options" s "''Failed to sync agents''"]
    by (auto simp: stepAgents_def isEmptyArray_def)
qed

lemma stepSkills_default:
  assumes "\<not> truthy (skipSkills options)" "skillTargets options = None"
    "pathExists (path_join (path_join a ''.context'') ''skills'') (world s)"
  shows "SkillExportRun a \<lparr>skill_preset = Some ''all'', skill_targets = None,
            skill_force = force options, skill_dryRun = dryRun options,
            skill_verbose = False, skill_includeBuiltIn = True\<rparr>
          \<in> set (trace (stepSkills sv a options s))"
proof -
  have "SkillExportRun a \<lparr>skill_preset = Some ''all'', skill_targets = None,
            skill_force = force options, skill_dryRun = dryRun options,
            skill_verbose = False, skill_includeBuiltIn = True\<rparr>
          \<in> set (trace (snd (exportSkills sv a options s)))"
    using assms
    by (simp add: exportSkills_def Let_def emit_def hasCustom_def split: prod.splits sum.splits)
  then show ?thesis
    using assms guarded_trace_mono[of "exportSkills sv a options" s "''Failed to export skills''"]
    by (auto simp: stepSkills_def isEmptyArray_def)
qed

lemma stepRules_default:
  assumes "\<not> truthy (skipDocs options)" "docTargets options = None"
    "pathExists (path_join (path_join a ''.context'') ''docs'') (world s)"
  shows "ExportRulesRun a \<lparr>rules_source = path_join (path_join a ''.context'') ''docs'',
            rules_preset = Some ''all'', rules_targets = None,
            rules_force = force options, rules_dryRun = dryRun options\<rparr>
          \<in> set (trace (stepRules sv a options s))"
proof -
  have "ExportRulesRun a \<lparr>rules_source = path_join (path_join a ''.context'') ''docs'',
            rules_preset = Some ''all'', rules_targets = None,
            rules_force = force options, rules_dryRun = dryRun options\<rparr>
          \<in> set (trace (snd (exportRules sv a options s)))"
    using assms
    by (simp add: exportRules_def Let_def emit_def hasCustom_def split: prod.splits sum.splits)
  then show ?thesis
    using assms guarded_trace_mono[of "exportRules sv a options" s "''Failed to export rules''"]
    by (auto simp: stepRules_def isEmptyArray_def)
qed

lemma guarded_world: "world (guarded m body s) = world (snd (body s))"
  by (simp add: guarded_def emit_def push_error_def split: prod.splits sum.splits)

lemma stepCommands_default_others:
  assumes "\<not> truthy (skipCommands options)" "commandTargets options = None"
    "pathExists (path_join (path_join a ''.context'') ''commands'') (world s)"
    "fs_readdir sv (path_join (path_join a ''.context'') ''commands'') (world s) = Inr names"
    "other_preset_paths sv a \<noteq> []"
  shows "SyncServiceRun (commands_sync_args a options (other_preset_paths sv a))
          \<in> set (trace (stepCommands sv a options s))"
proof -
  have "SyncServiceRun (commands_sync_args a options (other_preset_paths sv a))
          \<in> set (trace (snd (syncCommands sv a options s)))"
    using assms
    by (simp add: syncCommands_def Let_def emit_def hasCustom_def commands_sync_args_def
          other_preset_paths_def split: prod.splits sum.splits option.splits)
  then show ?thesis
    using assms guarded_trace_mono[of "syncCommands sv a options" s "''Failed to sync commands''"]
    by (auto simp: stepCommands_def isEmptyArray_def)
qed

lemma stepCommands_default_antigravity:
  assumes "\<not> truthy (skipCommands options)" "commandTargets options = None"
    "pathExists (path_join (path_join a ''.context'') ''commands'') (world s)"
    "fs_readdir sv (path_join (path_join a ''.context'') ''commands'') (world s) = Inr names"
    "map_of (commandsSyncPresets sv) ''antigravity'' = Some p"
    "path_resolve sv [a, p] \<noteq> []"
    "filter (\<lambda>f. endsWith f ''.md'') names \<noteq> []"
    "(other_preset_paths sv a = [] \<and> w1 = world s)
       \<or> (other_preset_paths sv a \<noteq> []
           \<and> syncService_run sv (commands_sync_args a options (other_preset_paths sv a)) (world s)
               = (Inr (), w1))"
  shows "world (stepCommands sv a options s)
       = snd (exportCommandsToAntigravity (path_join (path_join a ''.context'') ''commands'')
                (path_resolve sv [a, p]) (filter (\<lambda>f. endsWith f ''.md'') names)
                (case force options of None \<Rightarrow> False | Some b \<Rightarrow> b)
                (case dryRun options of None \<Rightarrow> False | Some b \<Rightarrow> b) w1)"
proof -
  have mem: "''antigravity'' \<in> set (map fst (commandsSyncPresets sv))"
    using assms(5) by (metis map_of_SomeD image_eqI fst_conv list.set_map)
  have "world (snd (syncCommands sv a options s))
       = snd (exportCommandsToAntigravity (path_join (path_join a ''.context'') ''commands'')
                (path_resolve sv [a, p]) (filter (\<lambda>f. endsWith f ''.md'') names)
                (case force options of None \<Rightarrow> False | Some b \<Rightarrow> b)
                (case dryRun options of None \<Rightarrow> False | Some b \<Rightarrow> b) w1)"
    using assms(8)
  proof
    assume h: "other_preset_paths sv a = [] \<and> w1 = world s"
    show ?thesis
      using assms(2-7) mem h
      by (simp add: syncCommands_def Let_def emit_def hasCustom_def commands_sync_args_def
            other_preset_paths_def split: prod.splits sum.splits)
  next
    assume h: "other_preset_paths sv a \<noteq> []
           \<and> syncService_run sv (commands_sync_args a options (other_preset_paths sv a)) (world s)
               = (Inr (), w1)"
    show ?thesis
      using assms(2-7) mem h
      by (simp add: syncCommands_def Let_def emit_def hasCustom_def commands_sync_args_def
            other_preset_paths_def split: prod.splits sum.splits)
  qed
  then show ?thesis
    using assms(1,2) by (simp add: stepCommands_def isEmptyArray_def guarded_world)
qed

lemma stepDocs_always:
  assumes "\<not> truthy (skipDocs options)"
  shows "DetectorDetect a \<in> set (trace (stepDocs sv a options s))"
proof -
  have "DetectorDetect a \<in> set (trace (snd (checkDocs sv a options s)))"
    by (simp add: checkDocs_def Let_def emit_def split: prod.splits sum.splits)
  then show ?thesis
    using assms guarded_trace_mono[of "checkDocs sv a options" s "''Failed to check docs''"]
    by (auto simp: stepDocs_def)
qed

text \<open>
  Claim C7. Whatever the services do, the passes that a run attempts are exactly those
  the options leave enabled, each once and in the order of the source: a failure in one
  pass does not stop a later one. The final \<open>errors\<close> list holds, in that order, the
  message thrown by each enabled pass whose \<open>try\<close> block threw, each taken in the
  state its predecessors left. The source has five guarded steps: the four passes of the
  claim and, between commands and the docs check, the export of the docs as rules.
  \<open>run\<close> has no outcome other than its result: every thrown value ends in \<open>guarded\<close>.
\<close>

theorem run_isolates_failures:
  "spinner_starts (trace (run sv repoPath options w))
     = map (\<lambda>key. translate sv key None) (expected_passes options)
   \<and> errors (result (run sv repoPath options w))
     = (let a = path_resolve sv [repoPath];
            s0 = initial_state w;
            s1 = stepAgents sv a options s0;
            s2 = stepSkills sv a options s1;
            s3 = stepCommands sv a options s2;
            s4 = stepRules sv a options s3
        in (if agents_enabled options then thrown (syncAgents sv a options s0) else [])
         @ (if skills_enabled options then thrown (exportSkills sv a options s1) else [])
         @ (if commands_enabled options then thrown (syncCommands sv a options s2) else [])
         @ (if rules_enabled options then thrown (exportRules sv a options s3) else [])
         @ (if docs_enabled options then thrown (checkDocs sv a options s4) else []))"
proof
  show "spinner_starts (trace (run sv repoPath options w))
     = map (\<lambda>key. translate sv key None) (expected_passes options)"
    unfolding run_def Let_def stepDocs_starts stepRules_starts stepCommands_starts
      stepSkills_starts stepAgents_starts
    by (simp add: initial_state_def expected_passes_def)
next
  show "errors (result (run sv repoPath options w))
     = (let a = path_resolve sv [repoPath];
            s0 = initial_state w;
            s1 = stepAgents sv a options s0;
            s2 = stepSkills sv a options s1;
            s3 = stepCommands sv a options s2;
            s4 = stepRules sv a options s3
        in (if agents_enabled options then thrown (syncAgents sv a options s0) else [])
         @ (if skills_enabled options then thrown (exportSkills sv a options s1) else [])
         @ (if commands_enabled options then thrown (syncCommands sv a options s2) else [])
         @ (if rules_enabled options then thrown (exportRules sv a options s3) else [])
         @ (if docs_enabled options then thrown (checkDocs sv a options s4) else []))"
    unfolding run_def Let_def stepDocs_errors stepRules_errors stepCommands_errors
      stepSkills_errors stepAgents_errors
    by (simp add: initial_state_def)
qed

lemmas run_eval = run_def step_defs guarded_def syncAgents_def exportSkills_def syncCommands_def
  exportRules_def checkDocs_def emit_def push_error_def initial_state_def Let_def
  truthy_def isEmptyArray_def hasCustom_def targetInfo_def pathExists_def path_join_def
  default_options_def quiet_services_def failing_services_def agents_only_fs_def

theorem run_isolates_failures_witness:
  "spinner_starts (trace (run failing_services ''/repo'' default_options agents_only_fs))
     = [''prompts.quickSync.syncing.agents'', ''prompts.quickSync.syncing.skills'',
        ''prompts.quickSync.syncing.commands'', ''prompts.quickSync.syncing.rules'',
        ''prompts.quickSync.syncing.docs'']
   \<and> errors (result (run failing_services ''/repo'' default_options agents_only_fs)) = [''boom'']
   \<and> docsUpdated (result (run failing_services ''/repo'' default_options agents_only_fs))"
proof -
  have e: "expected_passes default_options
     = [''prompts.quickSync.syncing.agents'', ''prompts.quickSync.syncing.skills'',
        ''prompts.quickSync.syncing.commands'', ''prompts.quickSync.syncing.rules'',
        ''prompts.quickSync.syncing.docs'']"
    by (simp add: expected_passes_def enabled_defs default_options_def truthy_def isEmptyArray_def)
  have t: "translate failing_services = (\<lambda>key days. key)"
    by (simp add: failing_services_def quiet_services_def)
  have 1: "spinner_starts (trace (run failing_services ''/repo'' default_options agents_only_fs))
     = [''prompts.quickSync.syncing.agents'', ''prompts.quickSync.syncing.skills'',
        ''prompts.quickSync.syncing.commands'', ''prompts.quickSync.syncing.rules'',
        ''prompts.quickSync.syncing.docs'']"
    using conjunct1[OF run_isolates_failures[of failing_services "''/repo''" default_options agents_only_fs]]
    by (simp only: e t list.map)
  have 2: "errors (result (run failing_services ''/repo'' default_options agents_only_fs)) = [''boom'']"
    by (simp add: run_eval)
  have 3: "docsUpdated (result (run failing_services ''/repo'' default_options agents_only_fs))"
    by (simp add: run_eval)
  show ?thesis using 1 2 3 by blast
qed

text \<open>
  Claim C6, as amended. \<open>run\<close> is the sequence of its five steps. The agents, skills,
  commands and rules-export steps leave the state untouched when their target list is an
  empty array. With the list absent (and the step not skipped by its flag, its source
  directory present) the agents, skills and rules services are called with the preset
  \<open>all\<close> and no targets. The commands step passes no preset: with its list absent it
  uses every registered commands preset, one call of the sync service for the paths of
  all presets other than \<open>antigravity\<close> (when there are any), and, when \<open>antigravity\<close>
  is registered and there are command files, the export of \<open>exportCommandsToAntigravity\<close>
  to its path, run in the environment the sync call left. The docs check has no target
  list: it calls the detector whenever \<open>skipDocs\<close> is not set, whatever \<open>docTargets\<close> is.
\<close>

theorem empty_targets_skip_pass:
  "run sv repoPath options w =
     stepDocs sv (path_resolve sv [repoPath]) options
       (stepRules sv (path_resolve sv [repoPath]) options
         (stepCommands sv (path_resolve sv [repoPath]) options
           (stepSkills sv (path_resolve sv [repoPath]) options
             (stepAgents sv (path_resolve sv [repoPath]) options (initial_state w)))))
   \<and> (isEmptyArray (agentTargets options) \<longrightarrow> stepAgents sv a options s = s)
   \<and> (isEmptyArray (skillTargets options) \<longrightarrow> stepSkills sv a options s = s)
   \<and> (isEmptyArray (commandTargets options) \<longrightarrow> stepCommands sv a options s = s)
   \<and> (isEmptyArray (docTargets options) \<longrightarrow> stepRules sv a options s = s)
   \<and> (\<not> truthy (skipAgents options) \<and> agentTargets options = None
        \<and> pathExists (path_join (path_join a ''.context'') ''agents'') (world s)
      \<longrightarrow> SyncServiceRun \<lparr>sync_source = path_join (path_join a ''.context'') ''agents'',
            sync_preset = Some ''all'', sync_target = None, sync_force = force options,
            sync_dryRun = dryRun options, sync_verbose = False\<rparr>
          \<in> set (trace (stepAgents sv a options s)))
   \<and> (\<not> truthy (skipSkills options) \<and> skillTargets options = None
        \<and> pathExists (path_join (path_join a ''.context'') ''skills'') (world s)
      \<longrightarrow> SkillExportRun a \<lparr>skill_preset = Some ''all'', skill_targets = None,
            skill_force = force options, skill_dryRun = dryRun options,
            skill_verbose = False, skill_includeBuiltIn = True\<rparr>
          \<in> set (trace (stepSkills sv a options s)))
   \<and> (\<not> truthy (skipCommands options) \<and> commandTargets options = None
        \<and> pathExists (path_join (path_join a ''.context'') ''commands'') (world s)
        \<and> fs_readdir sv (path_join (path_join a ''.context'') ''commands'') (world s) = Inr names
        \<and> other_preset_paths sv a \<noteq> []
      \<longrightarrow> SyncServiceRun (commands_sync_args a options (other_preset_paths sv a))
          \<in> set (trace (stepCommands sv a options s)))
   \<and> (\<not> truthy (skipCommands options) \<and> commandTargets options = None
        \<and> pathExists (path_join (path_join a ''.context'') ''commands'') (world s)
        \<and> fs_readdir sv (path_join (path_join a ''.context'') ''commands'') (world s) = Inr names
        \<and> map_of (commandsSyncPresets sv) ''antigravity'' = Some p
        \<and> path_resolve sv [a, p] \<noteq> []
        \<and> filter (\<lambda>f. endsWith f ''.md'') names \<noteq> []
        \<and> ((other_preset_paths sv a = [] \<and> w1 = world s)
            \<or> (other_preset_paths sv a \<noteq> []
                \<and> syncService_run sv (commands_sync_args a options (other_preset_paths sv a))
                     (world s) = (Inr (), w1)))
      \<longrightarrow> world (stepCommands sv a options s)
          = snd (exportCommandsToAntigravity (path_join (path_join a ''.context'') ''commands'')
                   (path_resolve sv [a, p]) (filter (\<lambda>f. endsWith f ''.md'') names)
                   (case force options of None \<Rightarrow> False | Some b \<Rightarrow> b)
                   (case dryRun options of None \<Rightarrow> False | Some b \<Rightarrow> b) w1))
   \<and> (\<not> truthy (skipDocs options) \<and> docTargets options = None
        \<and> pathExists (path_join (path_join a ''.context'') ''docs'') (world s)
      \<longrightarrow> ExportRulesRun a \<lparr>rules_source = path_join (path_join a ''.context'') ''docs'',
            rules_preset = Some ''all'', rules_targets = None,
            rules_force = force options, rules_dryRun = dryRun options\<rparr>
          \<in> set (trace (stepRules sv a options s)))
   \<and> (\<not> truthy (skipDocs options) \<longrightarrow> DetectorDetect a \<in> set (trace (stepDocs sv a options s)))"
  apply (intro conjI impI)
  subgoal by (simp add: run_def Let_def)
  subgoal by (simp add: stepAgents_def)
  subgoal by (simp add: stepSkills_def)
  subgoal by (simp add: stepCommands_def)
  subgoal by (simp add: stepRules_def)
  subgoal by (simp add: stepAgents_default)
  subgoal by (simp add: stepSkills_default)
  subgoal by (elim conjE, rule stepCommands_default_others; assumption)
  subgoal by (elim conjE, rule stepCommands_default_antigravity; assumption)
  subgoal by (simp add: stepRules_default)
  subgoal by (simp add: stepDocs_always)
  done

theorem empty_targets_skip_pass_witness:
  "stepAgents listing_services ''/repo'' no_targets (initial_state full_fs) = initial_state full_fs
   \<and> stepSkills listing_services ''/repo'' no_targets (initial_state full_fs) = initial_state full_fs
   \<and> stepCommands listing_services ''/repo'' no_targets (initial_state full_fs) = initial_state full_fs
   \<and> stepRules listing_services ''/repo'' no_targets (initial_state full_fs) = initial_state full_fs
   \<and> SyncServiceRun \<lparr>sync_source = ''/repo/.context/agents'', sync_preset = Some ''all'',
         sync_target = None, sync_force = None, sync_dryRun = None, sync_verbose = False\<rparr>
       \<in> set (trace (stepAgents listing_services ''/repo'' default_options (initial_state full_fs)))
   \<and> SkillExportRun ''/repo'' \<lparr>skill_preset = Some ''all'', skill_targets = None,
         skill_force = None, skill_dryRun = None, skill_verbose = False,
         skill_includeBuiltIn = True\<rparr>
       \<in> set (trace (stepSkills listing_services ''/repo'' default_options (initial_state full_fs)))
   \<and> SyncServiceRun \<lparr>sync_source = ''/repo/.context/commands'', sync_preset = None,
         sync_target = Some [''/repo/.cursor/commands''], sync_force = None, sync_dryRun = None,
         sync_verbose = False\<rparr>
       \<in> set (trace (stepCommands listing_services ''/repo'' default_options (initial_state full_fs)))
   \<and> files (world (stepCommands listing_services ''/repo'' default_options (initial_state full_fs)))
         ''/repo/.agent/workflows/init_mcp_only.md''
       = Some ''---\<newline>description: hello\<newline>---\<newline>\<newline>1. hello\<newline>''
   \<and> ExportRulesRun ''/repo'' \<lparr>rules_source = ''/repo/.context/docs'', rules_preset = Some ''all'',
         rules_targets = None, rules_force = None, rules_dryRun = None\<rparr>
       \<in> set (trace (stepRules listing_services ''/repo'' default_options (initial_state full_fs)))
   \<and> DetectorDetect ''/repo''
       \<in> set (trace (stepDocs listing_services ''/repo'' default_options (initial_state full_fs)))"
proof -
  let ?s = "initial_state full_fs"
  note e = empty_targets_skip_pass[of listing_services "''/repo''" no_targets full_fs
      "''/repo''" ?s "[]" "[]" full_fs]
  note d = empty_targets_skip_pass[of listing_services "''/repo''" default_options full_fs
      "''/repo''" ?s "[''init-mcp-only.md'']" "''.agent/workflows''" full_fs]
  note e2 = e[THEN conjunct2]
  note e3 = e2[THEN conjunct2]
  note e4 = e3[THEN conjunct2]
  note e5 = e4[THEN conjunct2]
  note d6 = d[THEN conjunct2, THEN conjunct2, THEN conjunct2, THEN conjunct2, THEN conjunct2]
  note d7 = d6[THEN conjunct2]
  note d8 = d7[THEN conjunct2]
  note d9 = d8[THEN conjunct2]
  note d10 = d9[THEN conjunct2]
  have empty: "isEmptyArray (agentTargets no_targets)" "isEmptyArray (skillTargets no_targets)"
    "isEmptyArray (commandTargets no_targets)" "isEmptyArray (docTargets no_targets)"
    by (simp_all add: no_targets_def default_options_def isEmptyArray_def)
  have absent: "\<not> truthy (skipAgents default_options)" "agentTargets default_options = None"
    "\<not> truthy (skipSkills default_options)" "skillTargets default_options = None"
    "\<not> truthy (skipCommands default_options)" "commandTargets default_options = None"
    "\<not> truthy (skipDocs default_options)" "docTargets default_options = None"
    "force default_options = None" "dryRun default_options = None"
    by (simp_all add: default_options_def truthy_def)
  have w: "world ?s = full_fs" by (simp add: initial_state_def)
  have dirs: "pathExists (path_join (path_join ''/repo'' ''.context'') ''agents'') full_fs"
    "pathExists (path_join (path_join ''/repo'' ''.context'') ''skills'') full_fs"
    "pathExists (path_join (path_join ''/repo'' ''.context'') ''commands'') full_fs"
    "pathExists (path_join (path_join ''/repo'' ''.context'') ''docs'') full_fs"
    by (simp_all add: pathExists_def path_join_def full_fs_def)
  have paths: "path_join (path_join ''/repo'' ''.context'') ''agents'' = ''/repo/.context/agents''"
    "path_join (path_join ''/repo'' ''.context'') ''commands'' = ''/repo/.context/commands''"
    "path_join (path_join ''/repo'' ''.context'') ''docs'' = ''/repo/.context/docs''"
    by (simp_all add: path_join_def)
  have rd: "fs_readdir listing_services (path_join (path_join ''/repo'' ''.context'') ''commands'') full_fs
      = Inr [''init-mcp-only.md'']"
    by (simp add: listing_services_def)
  have others: "other_preset_paths listing_services ''/repo'' = [''/repo/.cursor/commands'']"
    by (simp add: other_preset_paths_def listing_services_def quiet_services_def
          List.map_filter_def)
  have sync: "syncService_run listing_services
      (commands_sync_args ''/repo'' default_options [''/repo/.cursor/commands'']) full_fs
      = (Inr (), full_fs)"
    by (simp add: listing_services_def quiet_services_def)
  have anti: "map_of (commandsSyncPresets listing_services) ''antigravity'' = Some ''.agent/workflows''"
    "path_resolve listing_services [''/repo'', ''.agent/workflows''] = ''/repo/.agent/workflows''"
    by (simp_all add: listing_services_def quiet_services_def)
  have md: "filter (\<lambda>f. endsWith f ''.md'') [''init-mcp-only.md''] = [''init-mcp-only.md'']"
    by (simp add: endsWith_def)
  have name: "toAntigravityFilename ''init-mcp-only.md'' = ''init_mcp_only.md''" by code_simp
  have body: "toAntigravityWorkflowContent ''hello'' None
      = ''---\<newline>description: hello\<newline>---\<newline>\<newline>1. hello\<newline>''" by code_simp
  have 1: "stepAgents listing_services ''/repo'' no_targets ?s = ?s"
    using conjunct1[OF e2] empty(1) by blast
  have 2: "stepSkills listing_services ''/repo'' no_targets ?s = ?s"
    using conjunct1[OF e3] empty(2) by blast
  have 3: "stepCommands listing_services ''/repo'' no_targets ?s = ?s"
    using conjunct1[OF e4] empty(3) by blast
  have 4: "stepRules listing_services ''/repo'' no_targets ?s = ?s"
    using conjunct1[OF e5] empty(4) by blast
  have 5: "SyncServiceRun \<lparr>sync_source = ''/repo/.context/agents'', sync_preset = Some ''all'',
         sync_target = None, sync_force = None, sync_dryRun = None, sync_verbose = False\<rparr>
       \<in> set (trace (stepAgents listing_services ''/repo'' default_options ?s))"
    using conjunct1[OF d6] absent dirs(1) unfolding w paths by simp
  have 6: "SkillExportRun ''/repo'' \<lparr>skill_preset = Some ''all'', skill_targets = None,
         skill_force = None, skill_dryRun = None, skill_verbose = False,
         skill_includeBuiltIn = True\<rparr>
       \<in> set (trace (stepSkills listing_services ''/repo'' default_options ?s))"
    using conjunct1[OF d7] absent dirs(2) unfolding w by simp
  have 7: "SyncServiceRun \<lparr>sync_source = ''/repo/.context/commands'', sync_preset = None,
         sync_target = Some [''/repo/.cursor/commands''], sync_force = None, sync_dryRun = None,
         sync_verbose = False\<rparr>
       \<in> set (trace (stepCommands listing_services ''/repo'' default_options ?s))"
    using conjunct1[OF d8] absent dirs(3) rd
    unfolding w others by (simp add: commands_sync_args_def paths)
  have "world (stepCommands listing_services ''/repo'' default_options ?s)
      = snd (exportCommandsToAntigravity ''/repo/.context/commands'' ''/repo/.agent/workflows''
               [''init-mcp-only.md''] False False full_fs)"
    using conjunct1[OF d9] absent dirs(3) rd anti sync
    unfolding w others md by (simp add: paths)
  then have 8: "files (world (stepCommands listing_services ''/repo'' default_options ?s))
         ''/repo/.agent/workflows/init_mcp_only.md''
       = Some ''---\<newline>description: hello\<newline>---\<newline>\<newline>1. hello\<newline>''"
    by (simp add: exportCommandsToAntigravity_def ensureDir_def readFile_def writeFile_def
          path_join_def full_fs_def name body)
  have 9: "ExportRulesRun ''/repo'' \<lparr>rules_source = ''/repo/.context/docs'', rules_preset = Some ''all'',
         rules_targets = None, rules_force = None, rules_dryRun = None\<rparr>
       \<in> set (trace (stepRules listing_services ''/repo'' default_options ?s))"
    using conjunct1[OF d10] absent dirs(4) unfolding w paths by simp
  have 10: "DetectorDetect ''/repo'' \<in> set (trace (stepDocs listing_services ''/repo'' default_options ?s))"
    using conjunct2[OF d10] absent(7) by blast
  show ?thesis using 1 2 3 4 5 6 7 8 9 10 by blast
qed

text \<open>
  Claim C6 as stated fails twice. The docs check: with \<open>docTargets\<close> an empty array the
  detector is still called and \<open>docsUpdated\<close> is set from its answer. The commands
  pass: with \<open>commandTargets\<close> absent the sync service gets no preset, it gets the paths
  of the presets.
\<close>

theorem docs_check_ignores_docTargets:
  "DetectorDetect ''/repo'' \<in> set (trace (run quiet_services ''/repo''
       (default_options\<lparr>docTargets := Some []\<rparr>) agents_only_fs))
   \<and> docsUpdated (result (run quiet_services ''/repo''
       (default_options\<lparr>docTargets := Some []\<rparr>) agents_only_fs))
   \<and> filter is_sync_call (trace (stepCommands listing_services ''/repo'' default_options
         (initial_state full_fs)))
       = [SyncServiceRun \<lparr>sync_source = ''/repo/.context/commands'', sync_preset = None,
            sync_target = Some [''/repo/.cursor/commands''], sync_force = None,
            sync_dryRun = None, sync_verbose = False\<rparr>]"
proof -
  have name: "toAntigravityFilename ''init-mcp-only.md'' = ''init_mcp_only.md''" by code_simp
  have body: "toAntigravityWorkflowContent ''hello'' None
      = ''---\<newline>description: hello\<newline>---\<newline>\<newline>1. hello\<newline>''" by code_simp
  have "filter is_sync_call (trace (stepCommands listing_services ''/repo'' default_options
         (initial_state full_fs)))
       = [SyncServiceRun \<lparr>sync_source = ''/repo/.context/commands'', sync_preset = None,
            sync_target = Some [''/repo/.cursor/commands''], sync_force = None,
            sync_dryRun = None, sync_verbose = False\<rparr>]"
    by (simp add: run_eval listing_services_def full_fs_def List.map_filter_def endsWith_def
          exportCommandsToAntigravity_def ensureDir_def readFile_def writeFile_def name body)
  moreover have "DetectorDetect ''/repo'' \<in> set (trace (run quiet_services ''/repo''
       (default_options\<lparr>docTargets := Some []\<rparr>) agents_only_fs))
   \<and> docsUpdated (result (run quiet_services ''/repo''
       (default_options\<lparr>docTargets := Some []\<rparr>) agents_only_fs))"
    by (simp add: run_eval)
  ultimately show ?thesis by blast
qed

section \<open>The heading pattern\<close>

lemma concat_map_Eps [simp]: "concat (map (rmatch f Eps) xs) = xs"
  by (induction xs) simp_all

lemma lineTerminator_isSpace: "isLineTerminator c \<Longrightarrow> isSpace c"
  by (auto simp: isLineTerminator_def isSpace_def)

lemma not_space_isDot: "\<not> isSpace c \<Longrightarrow> isDot c"
  using lineTerminator_isSpace by (auto simp: isDot_def)

lemma newline_not_dot: "isDot x \<Longrightarrow> x \<noteq> CHR ''\<newline>''"
  by (auto simp: isDot_def isLineTerminator_def)

lemma line_end_fails_on_dot:
  "isDot x \<Longrightarrow> rmatch flag_m line_end (p, x # xs, g) = []"
  using newline_not_dot[of x] by (simp add: line_end_def chr_eq_def isDot_def)

lemma line_end_matches:
  assumes "d = [] \<or> \<not> isDot (hd d)"
  shows "\<exists>p' s' rest. rmatch flag_m line_end (p, d, g) = (p', s', g) # rest"
proof (cases d)
  case Nil
  then show ?thesis by (simp add: line_end_def)
next
  case (Cons x xs)
  then have "isLineTerminator x" using assms by (simp add: isDot_def)
  then show ?thesis using Cons by (simp add: line_end_def chr_eq_def)
qed

lemma dropWhile_stops: "d = dropWhile P s \<Longrightarrow> d = [] \<or> \<not> P (hd d)"
  using hd_dropWhile[of P s] by auto

lemma take_run: "take (Suc (length cs) - length (dropWhile P cs)) (c # cs) = c # takeWhile P cs"
proof -
  have "length cs = length (takeWhile P cs) + length (dropWhile P cs)"
    by (metis length_append takeWhile_dropWhile_id)
  then have "Suc (length cs) - length (dropWhile P cs) = Suc (length (takeWhile P cs))"
    by simp
  then show ?thesis by (simp add: takeWhile_eq_take[symmetric])
qed

lemma heading_tail_text:
  assumes "isDot c"
  shows "\<exists>p' s' rest. rmatch flag_m heading_tail (p, c # cs, g)
            = (p', s', Some (takeWhile isDot (c # cs))) # rest"
proof -
  let ?h = "\<lambda>st. case st of (p', s', g') \<Rightarrow>
               (p', s', Some (take (length (c # cs) - length s') (c # cs)))"
  let ?F = "\<lambda>st. rmatch flag_m line_end (?h st)"
  have F: "\<And>p' x xs g'. isDot x \<Longrightarrow> ?F (p', x # xs, g') = []"
    by (simp add: line_end_fails_on_dot)
  have "rmatch flag_m (Group (LazyPlus (Cls isDot))) (p, c # cs, g)
          = map ?h (rmatch flag_m (LazyStar (Cls isDot)) (Some c, cs, g))"
    using assms by (simp add: rmatch_LazyPlus_Cls_Cons)
  then have "rmatch flag_m heading_tail (p, c # cs, g)
          = concat (map ?F (rmatch flag_m (LazyStar (Cls isDot)) (Some c, cs, g)))"
    by (simp add: heading_tail_def comp_def)
  also have "\<dots> = ?F (prev_after (Some c) (takeWhile isDot cs), dropWhile isDot cs, g)"
    by (rule rmatch_LazyStar_Cls_skip) (simp add: line_end_fails_on_dot)
  also have "\<dots> = rmatch flag_m line_end (prev_after (Some c) (takeWhile isDot cs),
                  dropWhile isDot cs, Some (takeWhile isDot (c # cs)))"
    using assms by (simp add: take_run)
  finally show ?thesis
    using line_end_matches[OF dropWhile_stops[OF refl, of isDot cs],
        of "prev_after (Some c) (takeWhile isDot cs)" "Some (takeWhile isDot (c # cs))"]
    by auto
qed

lemma heading_tail_fail_Nil: "rmatch flag_m heading_tail (p, [], g) = []"
  by (simp add: heading_tail_def)

lemma re_heading_unfold:
  "re_heading = Seq Bol (Seq (Chr CHR ''#'') (Seq (Plus (Cls isSpace)) heading_tail))"
  by (simp add: re_heading_def heading_tail_def line_end_def)

text \<open>Group 1 is set in every match of the heading pattern.\<close>

lemma line_end_keeps_group:
  "(p', s', g') \<in> set (rmatch f line_end (p, s, g)) \<Longrightarrow> g' = g"
  by (cases s) (auto simp: line_end_def split: if_splits)

lemma heading_tail_sets_group:
  "(p', s', g') \<in> set (rmatch f heading_tail st) \<Longrightarrow> g' \<noteq> None"
proof -
  obtain p s g where st: "st = (p, s, g)" by (cases st) auto
  assume "(p', s', g') \<in> set (rmatch f heading_tail st)"
  then obtain q t h where "(q, t, h) \<in> set (rmatch f (Group (LazyPlus (Cls isDot))) (p, s, g))"
    and "(p', s', g') \<in> set (rmatch f line_end (q, t, h))"
    unfolding st heading_tail_def by (auto simp del: rmatch.simps(10))
  then show ?thesis using line_end_keeps_group[of p' s' g' f q t h] by auto
qed

lemma heading_group_set:
  "(p', s', g') \<in> set (rmatch f re_heading st) \<Longrightarrow> g' \<noteq> None"
  unfolding re_heading_unfold
  using heading_tail_sets_group by (fastforce)

lemma heading_at:
  assumes "line_start p" "isSpace w" "dropWhile isSpace v \<noteq> []"
  shows "\<exists>p' s' rest. rmatch flag_m re_heading (p, CHR ''#'' # w # v, None)
           = (p', s', Some (takeWhile isDot (dropWhile isSpace (w # v)))) # rest"
proof -
  obtain c cs where d: "dropWhile isSpace v = c # cs"
    using assms(3) by (cases "dropWhile isSpace v") auto
  then have "\<not> isSpace c" using hd_dropWhile[of isSpace v] by auto
  then have dot: "isDot c" by (rule not_space_isDot)
  obtain rest where star: "rmatch flag_m (Star (Cls isSpace)) (Some w, v, None)
      = (prev_after (Some w) (takeWhile isSpace v), c # cs, None) # rest"
    using rmatch_Star_Cls_hd[of flag_m isSpace "Some w" v None] d by auto
  obtain p' s' rest' where tail:
    "rmatch flag_m heading_tail (prev_after (Some w) (takeWhile isSpace v), c # cs, None)
       = (p', s', Some (takeWhile isDot (c # cs))) # rest'"
    using heading_tail_text[OF dot] by blast
  have bol: "rmatch flag_m Bol (p, s, g) = [(p, s, g)]" for s g
    using assms(1) by (cases p) (simp_all add: line_start_def)
  have "rmatch flag_m re_heading (p, CHR ''#'' # w # v, None)
          = concat (map (rmatch flag_m heading_tail) (rmatch flag_m (Star (Cls isSpace)) (Some w, v, None)))"
    using assms(2)
    by (simp add: re_heading_unfold bol chr_eq_def rmatch_Plus_Cls_Cons)
  then show ?thesis
    using star tail assms(2) d by simp
qed

lemma heading_not_at:
  assumes "\<not> (line_start p \<and> (\<exists>w v. u = CHR ''#'' # w # v \<and> isSpace w))"
  shows "rmatch flag_m re_heading (p, u, None) = []"
proof (cases "line_start p")
  case False
  then show ?thesis by (cases p) (simp_all add: re_heading_unfold line_start_def)
next
  case True
  then have bol: "rmatch flag_m Bol (p, s, g) = [(p, s, g)]" for s g
    by (cases p) (simp_all add: line_start_def)
  show ?thesis
  proof (cases u)
    case Nil
    then show ?thesis by (simp add: re_heading_unfold bol)
  next
    case c1: (Cons a v)
    show ?thesis
    proof (cases v)
      case Nil
      then show ?thesis using c1 by (simp add: re_heading_unfold bol chr_eq_def)
    next
      case (Cons w v')
      then show ?thesis using c1 assms True
        by (auto simp: re_heading_unfold bol chr_eq_def rmatch_Plus_Cls_Cons)
    qed
  qed
qed

lemma search_heading:
  assumes "u \<noteq> [] \<longrightarrow> \<not> isSpace (last u)"
  shows "map_option (\<lambda>r. group1 (snd r)) (re_search flag_m re_heading p u) = find_heading p u"
  using assms
proof (induction u arbitrary: p)
  case Nil
  have "rmatch flag_m re_heading (p, [], None) = []"
    by (rule heading_not_at) simp
  then show ?case by simp
next
  case (Cons c cs)
  have tailok: "cs \<noteq> [] \<longrightarrow> \<not> isSpace (last cs)" using Cons.prems by auto
  show ?case
  proof (cases "line_start p \<and> c = CHR ''#'' \<and> cs \<noteq> [] \<and> isSpace (hd cs)")
    case True
    then obtain w v where cs: "cs = w # v" "isSpace w" by (cases cs) auto
    have "dropWhile isSpace v \<noteq> []"
    proof (cases v)
      case Nil
      then show ?thesis using Cons.prems cs by simp
    next
      case (Cons a b)
      then have "\<not> isSpace (last v)" using Cons.prems cs by simp
      moreover have "last v \<in> set v" using Cons by simp
      ultimately show ?thesis by auto
    qed
    from heading_at[OF _ cs(2) this, of p] True cs
    obtain p' s' rest where
      "rmatch flag_m re_heading (p, c # cs, None)
          = (p', s', Some (takeWhile isDot (dropWhile isSpace cs))) # rest"
      by auto
    then show ?thesis using True by (simp add: group1_def)
  next
    case False
    then have "rmatch flag_m re_heading (p, c # cs, None) = []"
      by (intro heading_not_at) (auto)
    then show ?thesis using False Cons.IH[OF tailok, of "Some c"]
      by (auto split: option.splits)
  qed
qed

section \<open>trim, split and the global patterns\<close>

subsection \<open>trim\<close>

lemma filter_dropWhile: "filter (\<lambda>c. \<not> P c) (dropWhile P s) = filter (\<lambda>c. \<not> P c) s"
  by (induction s) simp_all

lemma filter_trimEnd: "filter (\<lambda>c. \<not> isSpace c) (trimEnd s) = filter (\<lambda>c. \<not> isSpace c) s"
  by (simp add: trimEnd_def rev_filter[symmetric] filter_dropWhile)

lemma filter_trim: "filter (\<lambda>c. \<not> isSpace c) (trim s) = filter (\<lambda>c. \<not> isSpace c) s"
  by (simp add: trim_def filter_trimEnd trimStart_def filter_dropWhile)

lemma has_text_trim [simp]: "has_text (trim s) = has_text s"
  by (simp add: has_text_def filter_trim)

lemma has_text_nonempty: "has_text s \<Longrightarrow> s \<noteq> []"
  by (auto simp: has_text_def)

lemma has_text_Cons: "\<not> isSpace x \<Longrightarrow> has_text (x # xs)"
  by (simp add: has_text_def)

lemma trim_all_space: "\<forall>c\<in>set s. isSpace c \<Longrightarrow> trim s = []"
proof -
  assume "\<forall>c\<in>set s. isSpace c"
  then have d: "dropWhile isSpace s = []" by simp
  show ?thesis unfolding trim_def trimStart_def trimEnd_def d by simp
qed

lemma trimEnd_last: "trimEnd s \<noteq> [] \<Longrightarrow> \<not> isSpace (last (trimEnd s))"
  using hd_dropWhile[of isSpace "rev s"] by (simp add: trimEnd_def last_rev)

lemma trimEnd_prefix: "\<exists>w. s = trimEnd s @ w"
proof -
  have "rev s = takeWhile isSpace (rev s) @ dropWhile isSpace (rev s)" by simp
  then have "rev (rev s) = rev (takeWhile isSpace (rev s) @ dropWhile isSpace (rev s))" by simp
  then have "s = trimEnd s @ rev (takeWhile isSpace (rev s))"
    by (simp add: trimEnd_def del: takeWhile_dropWhile_id)
  then show ?thesis by blast
qed

lemma trim_last: "trim s \<noteq> [] \<Longrightarrow> \<not> isSpace (last (trim s))"
  by (simp add: trim_def trimEnd_last)

lemma trim_hd: "trim s \<noteq> [] \<Longrightarrow> \<not> isSpace (hd (trim s))"
proof -
  assume ne: "trim s \<noteq> []"
  obtain w where w: "trimStart s = trim s @ w"
    using trimEnd_prefix[of "trimStart s"] by (auto simp: trim_def)
  then have "hd (trim s) = hd (dropWhile isSpace s)" using ne by (simp add: trimStart_def)
  moreover have "dropWhile isSpace s \<noteq> []" using w ne by (auto simp: trimStart_def)
  ultimately show ?thesis using hd_dropWhile[of isSpace s] by simp
qed

subsection \<open>The global patterns\<close>

lemma replace_chr_from:
  "re_replace_from no_flags (Chr a) [b] p s = map (\<lambda>c. if c = a then b else c) s"
proof (induction s arbitrary: p)
  case Nil
  show ?case by (subst re_replace_from.simps) simp
next
  case (Cons x xs)
  show ?case by (subst re_replace_from.simps) (simp add: chr_eq_def Cons)
qed

lemma rmatch_spaces_Cons:
  "\<exists>p' rest. rmatch no_flags re_spaces (p, x # xs, g) =
      (if isSpace x then (p', dropWhile isSpace xs, g) # rest else [])"
  using rmatch_Star_Cls_hd[of no_flags isSpace "Some x" xs g]
  by (auto simp: re_spaces_def rmatch_Plus_Cls_Cons)

lemma replace_spaces_from:
  "re_replace_from no_flags re_spaces '' '' p s = collapse_spaces s"
proof (induction s arbitrary: p rule: collapse_spaces.induct)
  case 1
  show ?case by (subst re_replace_from.simps) (simp add: re_spaces_def)
next
  case (2 x xs)
  obtain p' rest where m: "rmatch no_flags re_spaces (p, x # xs, None) =
      (if isSpace x then (p', dropWhile isSpace xs, None) # rest else [])"
    using rmatch_spaces_Cons by blast
  have len: "length (dropWhile isSpace xs) < Suc (length xs)"
    using length_dropWhile_le[of isSpace xs] by simp
  show ?case
  proof (cases "isSpace x")
    case True
    then show ?thesis using 2(1)[OF True, of p'] m len
      by (subst re_replace_from.simps) simp
  next
    case False
    then show ?thesis using 2(2)[OF False, of "Some x"] m
      by (subst re_replace_from.simps) simp
  qed
qed

lemma space_isSpace: "isSpace CHR '' ''"
  by (simp add: isSpace_def)

lemma filter_collapse_spaces:
  "filter (\<lambda>c. \<not> isSpace c) (collapse_spaces s) = filter (\<lambda>c. \<not> isSpace c) s"
  by (induction s rule: collapse_spaces.induct) (simp_all add: filter_dropWhile space_isSpace)

lemma has_text_collapse [simp]: "has_text (collapse_spaces s) = has_text s"
  by (simp add: has_text_def filter_collapse_spaces)

lemma split_lines_nonempty [simp]: "split_lines s \<noteq> []"
  by (induction s) (auto split: list.splits)

lemma rmatch_newline_Cons:
  "rmatch no_flags re_newline (p, c # cs, g) =
     (if c = CHR ''\<newline>'' then [(Some c, cs, g)] else [])"
  by (auto simp: re_newline_def chr_eq_def)

lemma split_from_newline:
  "re_split_from no_flags re_newline acc p s = (acc @ hd (split_lines s)) # tl (split_lines s)"
proof (induction s arbitrary: acc p)
  case Nil
  show ?case by simp
next
  case (Cons c cs)
  obtain l ls where l: "split_lines cs = l # ls" by (cases "split_lines cs") auto
  show ?case
  proof (cases "c = CHR ''\<newline>''")
    case True
    have "re_split_from no_flags re_newline acc p (c # cs)
            = acc # re_split_from no_flags re_newline [] (Some c) cs"
      by (simp add: rmatch_newline_Cons True)
    then show ?thesis using Cons[of "[]" "Some c"] l True by simp
  next
    case False
    have "re_split_from no_flags re_newline acc p (c # cs)
            = re_split_from no_flags re_newline (acc @ [c]) (Some c) cs"
      by (simp add: rmatch_newline_Cons False)
    then show ?thesis using Cons[of "acc @ [c]" "Some c"] l False by simp
  qed
qed

lemma split_newline: "re_split no_flags re_newline s = split_lines s"
proof (cases s)
  case Nil
  then show ?thesis by (simp add: re_split_def re_newline_def)
next
  case (Cons c cs)
  then show ?thesis
    using split_from_newline[of "[]" None s] split_lines_nonempty[of s]
    by (simp add: re_split_def del: split_lines_nonempty split_lines.simps)
qed

lemma hd_split_lines: "hd (split_lines s) = takeWhile (\<lambda>c. c \<noteq> CHR ''\<newline>'') s"
  by (induction s) (auto split: list.splits)

section \<open>The description\<close>

text \<open>
  What \<open>deriveDescription\<close> computes, without the matcher: the text is trimmed; the
  description is taken from the heading that \<open>find_heading\<close> finds, else from the first
  line, else it is \<open>Workflow\<close>; runs of white space are collapsed and the result is cut
  to 250 characters, the last three of them dots.
\<close>

lemma deriveDescription_eq:
  "deriveDescription md =
     truncate_description (trim (collapse_spaces (description_source (trim md))))"
proof -
  let ?t = "trim md"
  have ok: "?t \<noteq> [] \<longrightarrow> \<not> isSpace (last ?t)" using trim_last by blast
  note sh = search_heading[OF ok, of None]
  have src: "(case re_search flag_m re_heading None ?t of
               Some (pre, st) \<Rightarrow> trim (group1 st)
             | None \<Rightarrow>
                 (case re_split no_flags re_newline ?t of
                    [] \<Rightarrow> ''Workflow''
                  | l # ls \<Rightarrow> if trim l = [] then ''Workflow'' else trim l))
        = description_source ?t"
  proof (cases "re_search flag_m re_heading None ?t")
    case None
    then have fh: "find_heading None ?t = None" using sh by simp
    obtain l ls where l: "split_lines ?t = l # ls" by (cases "split_lines ?t") auto
    then have "l = takeWhile (\<lambda>c. c \<noteq> CHR ''\<newline>'') ?t"
      using hd_split_lines[of ?t] by simp
    then show ?thesis using None fh l
      by (simp add: description_source_def split_newline Let_def)
  next
    case (Some r)
    then have "find_heading None ?t = Some (group1 (snd r))" using sh by simp
    then show ?thesis using Some
      by (simp add: description_source_def case_prod_unfold)
  qed
  show ?thesis
    unfolding deriveDescription_def Let_def src
    by (simp add: re_replace_all_def replace_spaces_from truncate_description_def
          DESCRIPTION_MAX_LENGTH_def)
qed

lemma find_heading_text:
  assumes "u \<noteq> [] \<longrightarrow> \<not> isSpace (last u)" "find_heading p u = Some h"
  shows "has_text h"
  using assms
proof (induction u arbitrary: p)
  case Nil
  then show ?case by simp
next
  case (Cons c cs)
  have tailok: "cs \<noteq> [] \<longrightarrow> \<not> isSpace (last cs)" using Cons.prems(1) by auto
  show ?case
  proof (cases "line_start p \<and> c = CHR ''#'' \<and> cs \<noteq> [] \<and> isSpace (hd cs)")
    case True
    then have h: "h = takeWhile isDot (dropWhile isSpace cs)" using Cons.prems(2) by simp
    have "\<not> isSpace (last cs)" "last cs \<in> set cs" using True tailok by auto
    then have "dropWhile isSpace cs \<noteq> []" by auto
    then obtain x xs where d: "dropWhile isSpace cs = x # xs"
      by (cases "dropWhile isSpace cs") auto
    then have "\<not> isSpace x" using hd_dropWhile[of isSpace cs] by auto
    then show ?thesis using h d not_space_isDot by (simp add: has_text_Cons)
  next
    case False
    then show ?thesis using Cons.IH[OF tailok, of "Some c"] Cons.prems(2) by auto
  qed
qed

lemma trim_has_text: "trim s \<noteq> [] \<Longrightarrow> has_text (trim s)"
  using trim_hd[of s] by (cases "trim s") (simp_all add: has_text_Cons)

lemma description_source_text: "has_text (description_source (trim md))"
proof (cases "find_heading None (trim md)")
  case (Some h)
  have "has_text h" using find_heading_text[OF _ Some] trim_last by blast
  then show ?thesis using Some by (simp add: description_source_def)
next
  case None
  show ?thesis
  proof (cases "trim (takeWhile (\<lambda>c. c \<noteq> CHR ''\<newline>'') (trim md)) = []")
    case True
    then show ?thesis using None
      by (simp add: description_source_def has_text_def isSpace_def)
  next
    case False
    then have "has_text (trim (takeWhile (\<lambda>c. c \<noteq> CHR ''\<newline>'') (trim md)))"
      by (rule trim_has_text)
    then show ?thesis using None False by (simp add: description_source_def Let_def)
  qed
qed

lemma truncate_nonempty: "s \<noteq> [] \<Longrightarrow> truncate_description s \<noteq> []"
  by (simp add: truncate_description_def)

lemma truncate_length: "length (truncate_description s) \<le> 250"
  by (simp add: truncate_description_def)

lemma deriveDescription_nonempty: "deriveDescription md \<noteq> []"
  unfolding deriveDescription_eq
  by (intro truncate_nonempty has_text_nonempty)
     (simp add: description_source_text)

lemma deriveDescription_length: "length (deriveDescription md) \<le> 250"
  by (simp add: deriveDescription_eq truncate_length)

lemma deriveDescription_blank:
  assumes "\<forall>c\<in>set md. isSpace c"
  shows "deriveDescription md = ''Workflow''"
proof -
  have t: "trim md = []" using assms by (rule trim_all_space)
  have "description_source [] = ''Workflow''"
    by (simp add: description_source_def trim_def trimStart_def trimEnd_def)
  then show ?thesis
    unfolding deriveDescription_eq t
    by (simp add: truncate_description_def trim_def trimStart_def trimEnd_def isSpace_def)
qed

lemma given_description_cases:
  fixes options :: "workflow_options option"
  defines "given \<equiv> (case options of
               None \<Rightarrow> None
             | Some opts \<Rightarrow>
                 (case opt_description opts of
                    None \<Rightarrow> None
                  | Some d \<Rightarrow> if d \<noteq> [] \<and> length d \<le> DESCRIPTION_MAX_LENGTH then Some d else None))"
  shows "given = None \<or> (\<exists>d. given = Some d \<and> d \<noteq> [] \<and> length d \<le> 250)"
  unfolding given_def
  by (auto simp: DESCRIPTION_MAX_LENGTH_def split: option.splits)

lemma toAntigravityWorkflowContent_frontmatter:
  "\<exists>d rest. d \<noteq> [] \<and> CHR ''\<newline>'' \<notin> set d
      \<and> toAntigravityWorkflowContent md options
          = ''---\<newline>description: '' @ d @ ''\<newline>---\<newline>'' @ rest"
proof -
  define given where "given = (case options of
               None \<Rightarrow> None
             | Some opts \<Rightarrow>
                 (case opt_description opts of
                    None \<Rightarrow> None
                  | Some d \<Rightarrow> if d \<noteq> [] \<and> length d \<le> DESCRIPTION_MAX_LENGTH then Some d else None))"
  define description where
    "description = (case given of Some d \<Rightarrow> d | None \<Rightarrow> deriveDescription md)"
  have g: "given = None \<or> (\<exists>d. given = Some d \<and> d \<noteq> [] \<and> length d \<le> 250)"
    unfolding given_def by (rule given_description_cases)
  have ne: "description \<noteq> []"
    using g deriveDescription_nonempty[of md] by (auto simp: description_def)
  have len: "length description \<le> 250"
    using g deriveDescription_length[of md] by (auto simp: description_def)
  have nonl: "CHR ''\<newline>'' \<notin> set (map newline_to_space description)"
    by (auto simp: newline_to_space_def)
  have "\<exists>rest. toAntigravityWorkflowContent md options
          = ''---\<newline>description: '' @ map newline_to_space description @ ''\<newline>---\<newline>'' @ rest"
    using len
    unfolding toAntigravityWorkflowContent_def Let_def given_def[symmetric] description_def[symmetric]
    by (simp add: DESCRIPTION_MAX_LENGTH_def re_replace_all_def re_newline_def replace_chr_from
          newline_to_space_def[abs_def])
  then show ?thesis using ne nonl by (metis map_is_Nil_conv)
qed

text \<open>
  Claim C10. The description derived from a text of white space only (or from the
  empty text) is \<open>Workflow\<close>; the derived description is never empty; and whatever the
  options, the output starts with a front-matter block whose \<open>description\<close> line holds
  a value that is not empty.
\<close>

theorem deriveDescription_never_empty:
  "((\<forall>c\<in>set md. isSpace c) \<longrightarrow> deriveDescription md = ''Workflow'')
   \<and> deriveDescription md \<noteq> []
   \<and> (\<exists>d rest. d \<noteq> [] \<and> CHR ''\<newline>'' \<notin> set d
         \<and> toAntigravityWorkflowContent md options
             = ''---\<newline>description: '' @ d @ ''\<newline>---\<newline>'' @ rest)"
  using deriveDescription_blank deriveDescription_nonempty toAntigravityWorkflowContent_frontmatter
  by simp

theorem deriveDescription_never_empty_witness:
  "deriveDescription '' \<newline> '' = ''Workflow''
   \<and> toAntigravityWorkflowContent '' \<newline> '' None
       = ''---\<newline>description: Workflow\<newline>---\<newline>\<newline>1. \<newline>''"
proof -
  have d: "deriveDescription '' \<newline> '' = ''Workflow''"
    using deriveDescription_never_empty[of "'' \<newline> ''"] by (simp add: isSpace_def)
  have "toAntigravityWorkflowContent '' \<newline> '' None
       = ''---\<newline>description: Workflow\<newline>---\<newline>\<newline>1. \<newline>''"
    by code_simp
  then show ?thesis using d by simp
qed

section \<open>The description and the words of the specification\<close>

lemma blank_isSpace: "isBlank c \<Longrightarrow> isSpace c"
  by (simp add: isBlank_def)

lemma blank_isDot: "isBlank c \<Longrightarrow> isDot c"
  by (simp add: isBlank_def isDot_def)

lemma dropWhile_run:
  assumes "\<forall>b\<in>set bs. P b" "\<not> P x"
  shows "dropWhile P (bs @ x # r) = x # r"
  using assms by (induction bs) simp_all

lemma takeWhile_run:
  assumes "\<forall>b\<in>set bs. P b"
  shows "takeWhile P (bs @ ys) = bs @ takeWhile P ys"
  using assms by (induction bs) simp_all

lemma trimStart_run:
  assumes "\<forall>b\<in>set bs. isSpace b"
  shows "trim (bs @ ys) = trim ys"
proof -
  have "dropWhile isSpace (bs @ ys) = dropWhile isSpace ys"
    using assms by (induction bs) simp_all
  then show ?thesis by (simp add: trim_def trimStart_def)
qed

lemma heading_text_same_line:
  assumes "dropWhile isBlank cs = x # r" "\<not> isLineTerminator x"
  shows "trim (takeWhile isDot (dropWhile isSpace cs)) = trim (takeWhile isDot cs)"
proof -
  let ?bs = "takeWhile isBlank cs"
  have cs: "cs = ?bs @ x # r" using assms(1) by (metis takeWhile_dropWhile_id)
  have bl: "\<forall>b\<in>set ?bs. isBlank b" by (auto dest: set_takeWhileD)
  have "\<not> isBlank x" using assms(1) hd_dropWhile[of isBlank cs] by auto
  then have nsp: "\<not> isSpace x" using assms(2) by (simp add: isBlank_def)
  have d: "dropWhile isSpace cs = x # r"
    using dropWhile_run[of ?bs isSpace x r] bl nsp cs blank_isSpace by metis
  have t: "takeWhile isDot cs = ?bs @ takeWhile isDot (x # r)"
    using takeWhile_run[of ?bs isDot "x # r"] bl cs blank_isDot by metis
  show ?thesis unfolding d t
    using trimStart_run[of ?bs "takeWhile isDot (x # r)"] bl blank_isSpace by metis
qed

lemma find_heading_claimed:
  assumes "u \<noteq> [] \<longrightarrow> \<not> isSpace (last u)" "empty_heading_free p u"
  shows "map_option trim (find_heading p u) = first_heading p u"
  using assms
proof (induction u arbitrary: p)
  case Nil
  show ?case by simp
next
  case (Cons c cs)
  have tailok: "cs \<noteq> [] \<longrightarrow> \<not> isSpace (last cs)" using Cons.prems(1) by auto
  have free: "empty_heading_free (Some c) cs" using Cons.prems(2) by simp
  show ?case
  proof (cases "line_start p \<and> c = CHR ''#'' \<and> cs \<noteq> [] \<and> isSpace (hd cs)")
    case True
    then have ne: "\<not> heading_without_text cs" using Cons.prems(2) by simp
    have "\<not> isSpace (last cs)" "last cs \<in> set cs" using True tailok by auto
    then have "\<exists>y\<in>set cs. \<not> isBlank y" using blank_isSpace by blast
    then have "dropWhile isBlank cs \<noteq> []" by simp
    then obtain x r where d: "dropWhile isBlank cs = x # r"
      by (cases "dropWhile isBlank cs") auto
    then have x: "\<not> isLineTerminator x" using ne by (simp add: heading_without_text_def)
    have "isBlank (hd cs)"
    proof (rule ccontr)
      assume "\<not> isBlank (hd cs)"
      then have "dropWhile isBlank cs = cs" using True by (cases cs) auto
      then have "cs = x # r" using d by simp
      then have "hd cs = x" by simp
      then show False using x True \<open>\<not> isBlank (hd cs)\<close> by (simp add: isBlank_def)
    qed
    then have hr: "heading_rest cs" using True d x by (simp add: heading_rest_def)
    show ?thesis using True hr heading_text_same_line[OF d x] by simp
  next
    case False
    then have "\<not> (line_start p \<and> c = CHR ''#'' \<and> heading_rest cs)"
      using blank_isSpace by (auto simp: heading_rest_def)
    then show ?thesis using False Cons.IH[OF tailok free] by auto
  qed
qed

lemma trim_Cons_space: "isSpace x \<Longrightarrow> trim (x # l) = trim l"
  using trimStart_run[of "[x]" l] by simp

lemma first_nonempty_line_leading:
  "first_nonempty_line (split_lines c) = first_nonempty_line (split_lines (dropWhile isSpace c))"
proof (induction c)
  case Nil
  show ?case by simp
next
  case (Cons x xs)
  show ?case
  proof (cases "isSpace x")
    case False
    then show ?thesis by simp
  next
    case True
    obtain l ls where l: "split_lines xs = l # ls" by (cases "split_lines xs") auto
    have "first_nonempty_line (split_lines (x # xs)) = first_nonempty_line (split_lines xs)"
    proof (cases "x = CHR ''\<newline>''")
      case True
      then show ?thesis by (simp add: trim_def trimStart_def trimEnd_def)
    next
      case False
      then show ?thesis using l trim_Cons_space[OF True, of l] by simp
    qed
    then show ?thesis using True Cons by simp
  qed
qed

lemma newline_isSpace: "isSpace CHR ''\<newline>''"
  by (simp add: isSpace_def)

lemma first_nonempty_line_first:
  assumes "d \<noteq> []" "\<not> isSpace (hd d)"
  shows "first_nonempty_line (split_lines d) = trim (takeWhile (\<lambda>c. c \<noteq> CHR ''\<newline>'') d)"
proof -
  obtain x xs where d: "d = x # xs" using assms(1) by (cases d) auto
  then have x: "\<not> isSpace x" "x \<noteq> CHR ''\<newline>''" using assms(2) newline_isSpace by auto
  obtain l ls where l: "split_lines d = l # ls" by (cases "split_lines d") auto
  then have hd: "l = takeWhile (\<lambda>c. c \<noteq> CHR ''\<newline>'') d" using hd_split_lines[of d] by simp
  then have "has_text l" using d x by (simp add: has_text_Cons)
  then have "trim l \<noteq> []" using has_text_nonempty has_text_trim by blast
  then show ?thesis using l hd by simp
qed

lemma trimEnd_run:
  assumes "\<forall>b\<in>set w. isSpace b"
  shows "trimEnd (s @ w) = trimEnd s"
proof -
  have "dropWhile isSpace (rev w @ rev s) = dropWhile isSpace (rev s)"
    using assms by (intro dropWhile_append2) simp
  then show ?thesis by (simp add: trimEnd_def)
qed

lemma trim_trailing_run:
  assumes "\<forall>b\<in>set w. isSpace b"
  shows "trim (a @ w) = trim a"
proof (cases "\<forall>x\<in>set a. isSpace x")
  case True
  then have "\<forall>x\<in>set (a @ w). isSpace x" using assms by auto
  then have "trim (a @ w) = []" by (rule trim_all_space)
  moreover have "trim a = []" using True by (rule trim_all_space)
  ultimately show ?thesis by simp
next
  case False
  then obtain x where "x \<in> set a" "\<not> isSpace x" by blast
  then have "dropWhile isSpace (a @ w) = dropWhile isSpace a @ w"
    by (rule dropWhile_append1)
  then show ?thesis using trimEnd_run[OF assms] by (simp add: trim_def trimStart_def)
qed

lemma trimEnd_split: "\<exists>w. s = trimEnd s @ w \<and> (\<forall>b\<in>set w. isSpace b)"
proof -
  have "rev s = takeWhile isSpace (rev s) @ dropWhile isSpace (rev s)" by simp
  then have "rev (rev s) = rev (takeWhile isSpace (rev s) @ dropWhile isSpace (rev s))" by simp
  then have "s = trimEnd s @ rev (takeWhile isSpace (rev s))"
    by (simp add: trimEnd_def del: takeWhile_dropWhile_id)
  moreover have "\<forall>b\<in>set (rev (takeWhile isSpace (rev s))). isSpace b"
    by (auto dest: set_takeWhileD)
  ultimately show ?thesis by blast
qed

lemma first_line_trimEnd:
  "trim (takeWhile (\<lambda>c. c \<noteq> CHR ''\<newline>'') (trimEnd d))
     = trim (takeWhile (\<lambda>c. c \<noteq> CHR ''\<newline>'') d)"
proof -
  let ?P = "\<lambda>c. c \<noteq> CHR ''\<newline>''"
  obtain w where w: "d = trimEnd d @ w" "\<forall>b\<in>set w. isSpace b"
    using trimEnd_split by blast
  show ?thesis
  proof (cases "\<forall>x\<in>set (trimEnd d). ?P x")
    case True
    then have "takeWhile ?P (trimEnd d @ w) = trimEnd d @ takeWhile ?P w"
      by (intro takeWhile_append2) simp
    moreover have "takeWhile ?P (trimEnd d) = trimEnd d" using True by simp
    moreover have "\<forall>b\<in>set (takeWhile ?P w). isSpace b" using w(2) by (auto dest: set_takeWhileD)
    ultimately show ?thesis using w(1) trim_trailing_run[of "takeWhile ?P w" "trimEnd d"]
      by metis
  next
    case False
    then obtain x where "x \<in> set (trimEnd d)" "\<not> ?P x" by blast
    then have "takeWhile ?P (trimEnd d @ w) = takeWhile ?P (trimEnd d)"
      by (rule takeWhile_append1)
    then show ?thesis using w(1) by metis
  qed
qed

lemma first_nonempty_line_trim:
  assumes "has_text c"
  shows "first_nonempty_line (split_lines c) = trim (takeWhile (\<lambda>c. c \<noteq> CHR ''\<newline>'') (trim c))"
proof -
  let ?d = "dropWhile isSpace c"
  have "\<exists>x\<in>set c. \<not> isSpace x" using assms by (auto simp: has_text_def filter_empty_conv)
  then have ne: "?d \<noteq> []" by simp
  then have hd: "\<not> isSpace (hd ?d)" using hd_dropWhile[of isSpace c] by simp
  have "first_nonempty_line (split_lines c) = first_nonempty_line (split_lines ?d)"
    by (rule first_nonempty_line_leading)
  also have "\<dots> = trim (takeWhile (\<lambda>c. c \<noteq> CHR ''\<newline>'') ?d)"
    using first_nonempty_line_first[OF ne hd] .
  also have "\<dots> = trim (takeWhile (\<lambda>c. c \<noteq> CHR ''\<newline>'') (trimEnd ?d))"
    by (rule first_line_trimEnd[symmetric])
  finally show ?thesis by (simp add: trim_def trimStart_def)
qed

text \<open>
  For a text that is not blank and has no \<open>#\<close> line without text of its own,
  \<open>deriveDescription\<close> gives the description that the specification words for that
  text.
\<close>

lemma deriveDescription_claimed:
  assumes "has_text md" "empty_heading_free None (trim md)"
  shows "deriveDescription md = claimed_description md"
proof -
  let ?t = "trim md"
  have ok: "?t \<noteq> [] \<longrightarrow> \<not> isSpace (last ?t)" using trim_last by blast
  have fh: "map_option trim (find_heading None ?t) = first_heading None ?t"
    using find_heading_claimed[OF ok assms(2)] .
  have line: "first_nonempty_line (split_lines md) = trim (takeWhile (\<lambda>c. c \<noteq> CHR ''\<newline>'') ?t)"
    using first_nonempty_line_trim[OF assms(1)] .
  have "has_text ?t" using assms(1) by simp
  then obtain x xs where t: "?t = x # xs" using has_text_nonempty by (cases ?t) auto
  then have "\<not> isSpace x" using trim_hd[of md] by simp
  then have "x \<noteq> CHR ''\<newline>''" using newline_isSpace by auto
  then have "has_text (takeWhile (\<lambda>c. c \<noteq> CHR ''\<newline>'') ?t)"
    using t \<open>\<not> isSpace x\<close> by (simp add: has_text_Cons)
  then have ne: "trim (takeWhile (\<lambda>c. c \<noteq> CHR ''\<newline>'') ?t) \<noteq> []"
    using has_text_nonempty has_text_trim by blast
  have "description_source ?t =
          (case first_heading None ?t of
             Some h \<Rightarrow> h
           | None \<Rightarrow> first_nonempty_line (split_lines md))"
  proof (cases "find_heading None ?t")
    case None
    then have "first_heading None ?t = None" using fh by simp
    then show ?thesis using None ne line by (simp add: description_source_def Let_def)
  next
    case (Some a)
    then have "first_heading None ?t = Some (trim a)" using fh by simp
    then show ?thesis using Some by (simp add: description_source_def)
  qed
  then show ?thesis by (simp add: deriveDescription_eq claimed_description_def)
qed

text \<open>
  Claim C3, at a content with front matter and no heading. The body, the content with
  its front matter removed, is \<open>hello\<close>, and the description the specification words
  for that body is \<open>hello\<close>. The transform derives the description from the content as
  it came, whose first line is the front-matter delimiter, and writes \<open>---\<close>.
\<close>

theorem description_reads_front_matter:
  "trim (re_replace flag_m re_frontmatter [] ''---\<newline>title: x\<newline>---\<newline>hello'') = ''hello''
   \<and> claimed_description ''hello'' = ''hello''
   \<and> deriveDescription ''---\<newline>title: x\<newline>---\<newline>hello'' = ''---''
   \<and> toAntigravityWorkflowContent ''---\<newline>title: x\<newline>---\<newline>hello'' None
       = ''---\<newline>description: ---\<newline>---\<newline>\<newline>1. hello\<newline>''"
  by code_simp

text \<open>
  A second input where the description is not the one the specification words: after a
  \<open>#\<close> line without text the pattern reads on, since the white space after \<open>#\<close> may
  be a line break, and the description is the text of the following line.
\<close>

lemma deriveDescription_empty_heading:
  "deriveDescription ''#\<newline>foo'' = ''foo'' \<and> split_lines ''#\<newline>foo'' = [''#'', ''foo'']
   \<and> claimed_description ''#\<newline>foo'' = ''#''"
  by code_simp

section \<open>Numbered steps\<close>












section \<open>Applying the transform to its own output\<close>

text \<open>
  Claim C1, at the input \<open>hello\<close>. The body of the second output is that of the first:
  the front matter is removed before the body is taken. The description is not: it is
  derived from the content as it came, front matter included, and the second output has
  the description \<open>---\<close> where the first has \<open>hello\<close>.
\<close>

theorem transform_not_idempotent:
  "toAntigravityWorkflowContent ''hello'' None
     = ''---\<newline>description: hello\<newline>---\<newline>\<newline>1. hello\<newline>''
   \<and> toAntigravityWorkflowContent (toAntigravityWorkflowContent ''hello'' None) None
     = ''---\<newline>description: ---\<newline>---\<newline>\<newline>1. hello\<newline>''
   \<and> toAntigravityWorkflowContent (toAntigravityWorkflowContent ''hello'' None) None
     \<noteq> toAntigravityWorkflowContent ''hello'' None"
  by code_simp

text \<open>
  With a heading and a numbered item in the input the second application changes
  nothing, and a third application to the outputs above puts a \<open>---\<close> line into the
  body.
\<close>

lemma transform_idempotent_with_heading:
  "toAntigravityWorkflowContent (toAntigravityWorkflowContent ''# Title\<newline>1. step'' None) None
     = toAntigravityWorkflowContent ''# Title\<newline>1. step'' None"
  by code_simp

lemma transform_third_application:
  "toAntigravityWorkflowContent
     (toAntigravityWorkflowContent (toAntigravityWorkflowContent ''hello'' None) None) None
     = ''---\<newline>description: ---\<newline>---\<newline>\<newline>---\<newline>\<newline>1. hello\<newline>''"
  by code_simp

text \<open>
  Claim C2, at a text with two \<open>---\<close> lines in its body: the pattern has the \<open>m\<close>
  flag, so it matches at the first line that starts with \<open>---\<close>, and what lies between
  the two lines is removed from the body.
\<close>

theorem frontmatter_stripped_mid_body:
  "re_replace flag_m re_frontmatter [] ''Intro\<newline>---\<newline>keep\<newline>---\<newline>end'' = ''Intro\<newline>end''
   \<and> toAntigravityWorkflowContent ''Intro\<newline>---\<newline>keep\<newline>---\<newline>end'' None
     = ''---\<newline>description: Intro\<newline>---\<newline>\<newline>1. Intro\<newline>   end\<newline>''"
  by code_simp

end
